theory Spec2Isabelle
  imports Complex_Main
begin

section \<open>Service broker catalog reconciliation (controllers/services/brokers/controller.go)\<close>

text \<open>
  A shallow embedding of the broker reconciler. The Go code talks to three collaborators:
  the Kubernetes API server (through \<^verbatim>\<open>client.Client\<close>), the broker's catalog endpoint
  (through \<^verbatim>\<open>CatalogClient\<close>) and a few library functions. The cluster is an explicit
  state (\<open>world\<close>) that every function takes and returns; every call to a collaborator is
  appended to a trace kept in that state, and a collaborator may refuse any call
  (\<open>api_fault\<close>). A Go call returns a value, returns an error, or panics: the three
  constructors of \<open>res\<close>.
\<close>

subsection \<open>Values\<close>

type_synonym bytes = string

text \<open>A decoded JSON value, what \<^verbatim>\<open>any\<close> holds after \<^verbatim>\<open>json.Unmarshal\<close>.\<close>

datatype json =
    JNull
  | JBool bool
  | JNumber rat
  | JString string
  | JArray "json list"
  | JObject "(string \<times> json) list"

text \<open>
  Go error values. \<open>StatusError\<close> is an API server status error with its reason;
  \<open>PlainError\<close> carries a message only (\<^verbatim>\<open>fmt.Errorf\<close> without \<^verbatim>\<open>%w\<close>);
  \<open>WrapError\<close> is \<^verbatim>\<open>fmt.Errorf\<close> with \<^verbatim>\<open>%w\<close>: the formatted message and the wrapped error.
\<close>

datatype status_reason = NotFound | AlreadyExists | Conflict | OtherReason

datatype error =
    StatusError status_reason string
  | PlainError string
  | WrapError string error

fun error_msg :: "error \<Rightarrow> string" where
  "error_msg (StatusError r m) = m"
| "error_msg (PlainError m) = m"
| "error_msg (WrapError m e) = m"

text \<open>\<^verbatim>\<open>apierrors.IsNotFound\<close>: looks through wrapped errors for a status error.\<close>

fun IsNotFound :: "error \<Rightarrow> bool" where
  "IsNotFound (StatusError r m) = (r = NotFound)"
| "IsNotFound (PlainError m) = False"
| "IsNotFound (WrapError m e) = IsNotFound e"

datatype 'a res = Ok 'a | Err error | Panic

subsection \<open>Resources\<close>

text \<open>Namespace and name: \<^verbatim>\<open>client.ObjectKey\<close>.\<close>

type_synonym key = "string \<times> string"

datatype condition_status = ConditionTrue | ConditionFalse | ConditionUnknown

record condition =
  cond_type :: string
  cond_status :: condition_status
  cond_reason :: string
  cond_message :: string
  last_transition_time :: nat

text \<open>\<^verbatim>\<open>CFServiceBroker\<close>: metadata, the credentials secret reference of the spec, and the status.\<close>

record cf_service_broker =
  b_name :: string
  b_namespace :: string
  b_generation :: int
  b_credentials_name :: string
  b_observed_generation :: int
  b_credentials_observed_version :: string
  b_conditions :: "condition list"

record secret =
  sec_name :: string
  sec_namespace :: string
  sec_resource_version :: string
  sec_data :: "string \<rightharpoonup> bytes"

record broker_catalog_features =
  bcf_plan_updateable :: bool
  bcf_bindable :: bool

text \<open>\<^verbatim>\<open>services.ServicePlanSchemas\<close>: three optional raw parameter schemas.\<close>

record schemas =
  service_instance_create :: "bytes option"
  service_instance_update :: "bytes option"
  service_binding_create :: "bytes option"

text \<open>The catalog document: \<^verbatim>\<open>osbapi.Catalog\<close>, \<^verbatim>\<open>osbapi.Service\<close>, \<^verbatim>\<open>osbapi.Plan\<close>.
  A metadata map that is \<^verbatim>\<open>nil\<close> is \<open>None\<close>.\<close>

record osbapi_plan =
  plan_id :: string
  plan_name :: string
  plan_description :: string
  plan_metadata :: "(string \<rightharpoonup> json) option"
  plan_free :: bool
  plan_bindable :: bool
  plan_plan_updateable :: bool
  plan_schemas :: schemas

record osbapi_service =
  svc_id :: string
  svc_name :: string
  svc_description :: string
  svc_tags :: "string list"
  svc_requires :: "string list"
  svc_metadata :: "(string \<rightharpoonup> json) option"
  svc_features :: broker_catalog_features
  svc_plans :: "osbapi_plan list"

record osbapi_catalog =
  cat_services :: "osbapi_service list"

text \<open>\<^verbatim>\<open>services.ServiceOffering\<close>, the spec of a stored offering.\<close>

record service_offering =
  so_name :: string
  so_description :: string
  so_tags :: "string list"
  so_requires :: "string list"
  so_documentation_url :: "string option"
  so_catalog_id :: string
  so_catalog_metadata :: "bytes option"
  so_catalog_features :: broker_catalog_features

text \<open>\<^verbatim>\<open>services.ServicePlan\<close>, the spec of a stored plan.\<close>

record service_plan =
  sp_name :: string
  sp_free :: bool
  sp_description :: string
  sp_catalog_id :: string
  sp_catalog_metadata :: "bytes option"
  sp_plan_updateable :: bool
  sp_bindable :: bool
  sp_schemas :: schemas

text \<open>
  A stored object: the part of \<^verbatim>\<open>ObjectMeta\<close> the reconciler reads or writes, and the
  spec. A \<^verbatim>\<open>nil\<close> label map and an empty one are the same map here: reading either gives
  no entry, and the code replaces \<^verbatim>\<open>nil\<close> by an empty map before it writes.
\<close>

record 'spec k8s_object =
  obj_name :: string
  obj_namespace :: string
  obj_labels :: "string \<rightharpoonup> string"
  obj_spec :: 'spec

definition obj_key :: "'spec k8s_object \<Rightarrow> key" where
  "obj_key obj = (obj_namespace obj, obj_name obj)"

text \<open>Go zero values of the two specs.\<close>

definition zero_schemas :: schemas where
  "zero_schemas = \<lparr>service_instance_create = None, service_instance_update = None,
     service_binding_create = None\<rparr>"

definition zero_service_offering :: service_offering where
  "zero_service_offering = \<lparr>so_name = [], so_description = [], so_tags = [], so_requires = [],
     so_documentation_url = None, so_catalog_id = [], so_catalog_metadata = None,
     so_catalog_features = \<lparr>bcf_plan_updateable = False, bcf_bindable = False\<rparr>\<rparr>"

definition zero_service_plan :: service_plan where
  "zero_service_plan = \<lparr>sp_name = [], sp_free = False, sp_description = [], sp_catalog_id = [],
     sp_catalog_metadata = None, sp_plan_updateable = False, sp_bindable = False,
     sp_schemas = zero_schemas\<rparr>"

subsection \<open>The cluster and the collaborators\<close>

datatype kind = Secret | CFServiceBroker | CFServiceOffering | CFServicePlan

text \<open>
  One entry of the trace: a request to the API server (\<open>ApiList\<close> carries the namespace
  and the value the credentials-secret index is matched against), or a catalog fetch for
  the named broker.
\<close>

datatype call =
    ApiGet kind key
  | ApiCreate kind key
  | ApiPatch kind key
  | ApiList kind string string
  | CatalogGet string

record world =
  secrets :: "key \<rightharpoonup> secret"
  brokers :: "cf_service_broker list"
  offerings :: "key \<rightharpoonup> service_offering k8s_object"
  plans :: "key \<rightharpoonup> service_plan k8s_object"
  calls :: "call list"

text \<open>
  What the reconciler is given and does not define: the fault behaviour of the API
  server (from the calls made so far and the call at hand, the error it answers with, if
  any), the catalog client, \<^verbatim>\<open>tools.NamespacedUUID\<close>, \<^verbatim>\<open>json.Unmarshal\<close> into a
  \<^verbatim>\<open>map[string]any\<close>, \<^verbatim>\<open>json.Marshal\<close> of such a map, the \<^verbatim>\<open>%q\<close> verb of \<^verbatim>\<open>fmt\<close>,
  the clock, and the constants of package \<^verbatim>\<open>korifiv1alpha1\<close>.
\<close>

record env =
  api_fault :: "call list \<Rightarrow> call \<Rightarrow> error option"
  GetCatalog :: "cf_service_broker \<Rightarrow> error + osbapi_catalog"
  NamespacedUUID :: "string \<Rightarrow> string \<Rightarrow> string"
  json_Unmarshal :: "bytes \<Rightarrow> error + (string \<rightharpoonup> json)"
  json_Marshal :: "(string \<rightharpoonup> json) option \<Rightarrow> error + bytes"
  fmt_q :: "string \<Rightarrow> string"
  now :: nat
  default_reason :: string
  CredentialsSecretKey :: string
  UsernameCredentialsKey :: string
  PasswordCredentialsKey :: string
  RelServiceBrokerLabel :: string
  RelServiceOfferingLabel :: string

subsection \<open>The API client\<close>

text \<open>
  \<^verbatim>\<open>client.Get\<close>, \<^verbatim>\<open>client.Create\<close> and \<^verbatim>\<open>client.Patch\<close> on one kind of resource. Each
  records its call. A refused call changes nothing; reading an absent object answers
  not-found, creating an existing one already-exists, patching an absent one not-found.
\<close>

definition k8s_Get ::
  "env \<Rightarrow> kind \<Rightarrow> (key \<rightharpoonup> 'o) \<Rightarrow> call list \<Rightarrow> key \<Rightarrow> (error + 'o) \<times> call list" where
  "k8s_Get env k st tr ky =
     ((case api_fault env tr (ApiGet k ky) of
         Some e \<Rightarrow> Inl e
       | None \<Rightarrow> (case st ky of
                    None \<Rightarrow> Inl (StatusError NotFound (snd ky @ '' not found''))
                  | Some ob \<Rightarrow> Inr ob)),
      tr @ [ApiGet k ky])"

definition k8s_Create ::
  "env \<Rightarrow> kind \<Rightarrow> (key \<rightharpoonup> 'o) \<Rightarrow> call list \<Rightarrow> key \<Rightarrow> 'o
     \<Rightarrow> error option \<times> (key \<rightharpoonup> 'o) \<times> call list" where
  "k8s_Create env k st tr ky ob =
     (case api_fault env tr (ApiCreate k ky) of
        Some e \<Rightarrow> (Some e, st, tr @ [ApiCreate k ky])
      | None \<Rightarrow> (case st ky of
                   Some old \<Rightarrow> (Some (StatusError AlreadyExists (snd ky @ '' already exists'')),
                                st, tr @ [ApiCreate k ky])
                 | None \<Rightarrow> (None, st(ky \<mapsto> ob), tr @ [ApiCreate k ky])))"

definition k8s_Patch ::
  "env \<Rightarrow> kind \<Rightarrow> (key \<rightharpoonup> 'o) \<Rightarrow> call list \<Rightarrow> key \<Rightarrow> 'o
     \<Rightarrow> error option \<times> (key \<rightharpoonup> 'o) \<times> call list" where
  "k8s_Patch env k st tr ky ob =
     (case api_fault env tr (ApiPatch k ky) of
        Some e \<Rightarrow> (Some e, st, tr @ [ApiPatch k ky])
      | None \<Rightarrow> (case st ky of
                   None \<Rightarrow> (Some (StatusError NotFound (snd ky @ '' not found'')),
                             st, tr @ [ApiPatch k ky])
                 | Some old \<Rightarrow> (None, st(ky \<mapsto> ob), tr @ [ApiPatch k ky])))"

text \<open>
  \<^verbatim>\<open>controllerutil.CreateOrPatch\<close>. It reads the object; when that fails with anything but
  not-found it gives up. When the object is absent it runs the mutate function on the
  object it was handed and creates the result. When the object is there it runs the
  mutate function on what it read and sends a patch only if the result differs. The
  mutate function must leave name and namespace alone. The object comes back as the
  caller's pointer holds it after the call.
\<close>

definition mutate ::
  "('spec k8s_object \<Rightarrow> 'spec k8s_object res) \<Rightarrow> key \<Rightarrow> 'spec k8s_object
     \<Rightarrow> 'spec k8s_object res" where
  "mutate f ky ob =
     (case f ob of
        Panic \<Rightarrow> Panic
      | Err e \<Rightarrow> Err e
      | Ok ob' \<Rightarrow> (if obj_key ob' \<noteq> ky
                   then Err (PlainError ''MutateFn cannot mutate object name and/or object namespace'')
                   else Ok ob'))"

definition CreateOrPatch ::
  "env \<Rightarrow> kind \<Rightarrow> (key \<rightharpoonup> 'spec k8s_object) \<Rightarrow> call list \<Rightarrow> 'spec k8s_object
     \<Rightarrow> ('spec k8s_object \<Rightarrow> 'spec k8s_object res)
     \<Rightarrow> 'spec k8s_object res \<times> (key \<rightharpoonup> 'spec k8s_object) \<times> call list" where
  "CreateOrPatch env k st tr ob f =
     (let ky = obj_key ob in
      case k8s_Get env k st tr ky of
        (Inl err, tr1) \<Rightarrow>
          (if \<not> IsNotFound err then (Err err, st, tr1)
           else (case mutate f ky ob of
                   Panic \<Rightarrow> (Panic, st, tr1)
                 | Err e \<Rightarrow> (Err e, st, tr1)
                 | Ok ob' \<Rightarrow>
                     (case k8s_Create env k st tr1 ky ob' of
                        (Some e, st2, tr2) \<Rightarrow> (Err e, st2, tr2)
                      | (None, st2, tr2) \<Rightarrow> (Ok ob', st2, tr2))))
      | (Inr cur, tr1) \<Rightarrow>
          (case mutate f ky cur of
             Panic \<Rightarrow> (Panic, st, tr1)
           | Err e \<Rightarrow> (Err e, st, tr1)
           | Ok ob' \<Rightarrow>
               (if ob' = cur then (Ok ob', st, tr1)
                else (case k8s_Patch env k st tr1 ky ob' of
                        (Some e, st2, tr2) \<Rightarrow> (Err e, st2, tr2)
                      | (None, st2, tr2) \<Rightarrow> (Ok ob', st2, tr2)))))"

text \<open>
  \<^verbatim>\<open>client.List\<close> of the brokers of a namespace whose index value matches (the
  \<^verbatim>\<open>InNamespace\<close> and \<^verbatim>\<open>MatchingFields\<close> options), for an index function \<open>idx\<close>.
\<close>

definition k8s_List ::
  "env \<Rightarrow> (cf_service_broker \<Rightarrow> string list) \<Rightarrow> cf_service_broker list \<Rightarrow> call list
     \<Rightarrow> string \<Rightarrow> string \<Rightarrow> (error + cf_service_broker list) \<times> call list" where
  "k8s_List env idx bs tr ns v =
     ((case api_fault env tr (ApiList CFServiceBroker ns v) of
         Some e \<Rightarrow> Inl e
       | None \<Rightarrow> Inr (filter (\<lambda>b. b_namespace b = ns \<and> v \<in> set (idx b)) bs)),
      tr @ [ApiList CFServiceBroker ns v])"

subsection \<open>Status conditions\<close>

text \<open>
  \<^verbatim>\<open>meta.SetStatusCondition\<close>: a condition of a type not yet in the list is appended
  (stamped with the current time if it carries none); otherwise the first condition of
  that type takes the new status (and transition time, when the status changes), reason
  and message.
\<close>

fun SetStatusCondition :: "env \<Rightarrow> condition list \<Rightarrow> condition \<Rightarrow> condition list" where
  "SetStatusCondition env [] new =
     [if last_transition_time new = 0 then new\<lparr>last_transition_time := now env\<rparr> else new]"
| "SetStatusCondition env (c # cs) new =
     (if cond_type c = cond_type new
      then (if cond_status c \<noteq> cond_status new
            then c\<lparr>cond_status := cond_status new,
                   last_transition_time :=
                     (if last_transition_time new \<noteq> 0 then last_transition_time new
                      else now env)\<rparr>
            else c)\<lparr>cond_reason := cond_reason new, cond_message := cond_message new\<rparr> # cs
      else c # SetStatusCondition env cs new)"

fun FindStatusCondition :: "condition list \<Rightarrow> string \<Rightarrow> condition option" where
  "FindStatusCondition [] t = None"
| "FindStatusCondition (c # cs) t = (if cond_type c = t then Some c else FindStatusCondition cs t)"

text \<open>
  Modelled from the spec: the ready-condition builder of package \<^verbatim>\<open>tools/k8s\<close> is not
  among the sources. The spec's ConditionBuilder builds the terminal condition from an
  error value: no error gives Ready/True; an error gives Ready/False with the reason set
  for the failure. A builder holds the status, the reason and the message of the
  condition it will build.
\<close>

record ready_condition_builder =
  rb_status :: condition_status
  rb_reason :: string
  rb_message :: string

text \<open>Modelled from the spec: the condition type \<^verbatim>\<open>korifiv1alpha1.StatusConditionReady\<close>,
  not among the sources; the spec calls the condition Ready.\<close>

definition StatusConditionReady :: string where
  "StatusConditionReady = ''Ready''"

text \<open>Modelled from the spec: \<^verbatim>\<open>NewReadyConditionBuilder\<close>, not among the sources. A new
  builder is not ready; the reason it starts with is not given by the spec and is the
  parameter \<open>default_reason\<close>.\<close>

definition NewReadyConditionBuilder :: "env \<Rightarrow> ready_condition_builder" where
  "NewReadyConditionBuilder env =
     \<lparr>rb_status = ConditionFalse, rb_reason = default_reason env, rb_message = []\<rparr>"

text \<open>Modelled from the spec: \<^verbatim>\<open>WithReason\<close>, not among the sources: sets the reason of the
  failure.\<close>

definition WithReason :: "string \<Rightarrow> ready_condition_builder \<Rightarrow> ready_condition_builder" where
  "WithReason r bld = bld\<lparr>rb_reason := r\<rparr>"

text \<open>Modelled from the spec: \<^verbatim>\<open>Ready\<close>, not among the sources: marks the condition
  Ready/True.\<close>

definition Ready :: "ready_condition_builder \<Rightarrow> ready_condition_builder" where
  "Ready bld = bld\<lparr>rb_status := ConditionTrue\<rparr>"

text \<open>Modelled from the spec: \<^verbatim>\<open>WithError\<close>, not among the sources: no error gives
  Ready/True; an error gives Ready/False, with the error's text as message.\<close>

definition WithError :: "error option \<Rightarrow> ready_condition_builder \<Rightarrow> ready_condition_builder" where
  "WithError err bld =
     (case err of
        None \<Rightarrow> bld\<lparr>rb_status := ConditionTrue\<rparr>
      | Some e \<Rightarrow> bld\<lparr>rb_status := ConditionFalse, rb_message := error_msg e\<rparr>)"

text \<open>Modelled from the spec: \<^verbatim>\<open>Build\<close>, not among the sources: the condition of type
  Ready with the builder's status, reason and message, stamped with the current time.\<close>

definition Build :: "env \<Rightarrow> ready_condition_builder \<Rightarrow> condition" where
  "Build env bld =
     \<lparr>cond_type = StatusConditionReady, cond_status = rb_status bld,
      cond_reason = rb_reason bld, cond_message = rb_message bld,
      last_transition_time = now env\<rparr>"

subsection \<open>From a secret to the brokers that use it\<close>

text \<open>
  Modelled from the spec: the field index \<^verbatim>\<open>shared.IndexServiceBrokerCredentialsSecretName\<close>
  is registered outside the sources. The spec's SecretWatchIndex maps a secret to the
  brokers whose credentials reference it: a broker is indexed under the name of its
  credentials secret.
\<close>

definition IndexServiceBrokerCredentialsSecretName :: "cf_service_broker \<Rightarrow> string list" where
  "IndexServiceBrokerCredentialsSecretName b = [b_credentials_name b]"

text \<open>\<open>secretToServiceBroker\<close>, for a secret with key \<open>(o_namespace, o_name)\<close>: one request
  (namespace and name) per listed broker, none when the list call fails.\<close>

definition secretToServiceBroker :: "env \<Rightarrow> world \<Rightarrow> key \<Rightarrow> key list \<times> world" where
  "secretToServiceBroker env w o_key =
     (case k8s_List env IndexServiceBrokerCredentialsSecretName (brokers w) (calls w)
             (fst o_key) (snd o_key) of
        (Inl err, tr) \<Rightarrow> ([], w\<lparr>calls := tr\<rparr>)
      | (Inr items, tr) \<Rightarrow> (map (\<lambda>sb. (b_namespace sb, b_name sb)) items, w\<lparr>calls := tr\<rparr>))"

subsection \<open>Credentials\<close>

text \<open>The loop of \<open>validateCredentials\<close> over the required keys.\<close>

fun validateCredentials_keys ::
  "env \<Rightarrow> secret \<Rightarrow> (string \<rightharpoonup> json) \<Rightarrow> string list \<Rightarrow> error option" where
  "validateCredentials_keys env credentialsSecret creds [] = None"
| "validateCredentials_keys env credentialsSecret creds (k # ks) =
     (if creds k = None
      then Some (PlainError (''broker credentials secret '' @ fmt_q env (sec_name credentialsSecret)
                   @ '' does not specify '' @ fmt_q env k))
      else validateCredentials_keys env credentialsSecret creds ks)"

text \<open>Reading a key a Go map does not have gives the zero value: no bytes.\<close>

definition validateCredentials :: "env \<Rightarrow> secret \<Rightarrow> error option" where
  "validateCredentials env credentialsSecret =
     (case json_Unmarshal env
             (case sec_data credentialsSecret (CredentialsSecretKey env) of
                None \<Rightarrow> [] | Some bs \<Rightarrow> bs) of
        Inl err \<Rightarrow>
          Some (WrapError (''invalid credentials secret '' @ fmt_q env (sec_name credentialsSecret)
                  @ '': '' @ error_msg err) err)
      | Inr creds \<Rightarrow>
          validateCredentials_keys env credentialsSecret creds
            [UsernameCredentialsKey env, PasswordCredentialsKey env])"

subsection \<open>Offerings and plans\<close>

text \<open>
  \<open>toSpecServiceOffering\<close>. The type assertion \<^verbatim>\<open>u.(string)\<close> on the metadata entry
  \<^verbatim>\<open>documentationUrl\<close> has no \<^verbatim>\<open>ok\<close> result: on anything but a string it panics.
\<close>

definition toSpecServiceOffering :: "env \<Rightarrow> osbapi_service \<Rightarrow> service_offering res" where
  "toSpecServiceOffering env catalogService =
     (let offering = \<lparr>so_name = svc_name catalogService,
                       so_description = svc_description catalogService,
                       so_tags = svc_tags catalogService,
                       so_requires = svc_requires catalogService,
                       so_documentation_url = None,
                       so_catalog_id = svc_id catalogService,
                       so_catalog_metadata = None,
                       so_catalog_features = svc_features catalogService\<rparr>
      in case svc_metadata catalogService of
           None \<Rightarrow> Ok offering
         | Some md \<Rightarrow>
             (case (case md ''documentationUrl'' of
                      None \<Rightarrow> Ok offering
                    | Some u \<Rightarrow> (case u of
                                   JString str \<Rightarrow> Ok (offering\<lparr>so_documentation_url := Some str\<rparr>)
                                 | _ \<Rightarrow> Panic)) of
                Panic \<Rightarrow> Panic
              | Err e \<Rightarrow> Err e
              | Ok offering1 \<Rightarrow>
                  (case json_Marshal env (Some md) of
                     Inl err \<Rightarrow> Err err
                   | Inr rawMd \<Rightarrow> Ok (offering1\<lparr>so_catalog_metadata := Some rawMd\<rparr>))))"

text \<open>Reading a label: the empty string when the map has no such key.\<close>

definition label :: "(string \<rightharpoonup> string) \<Rightarrow> string \<Rightarrow> string" where
  "label ls k = (case ls k of None \<Rightarrow> [] | Some v \<Rightarrow> v)"

text \<open>The mutate function of \<open>reconcileCatalogPlan\<close>.\<close>

definition servicePlan_mutate ::
  "env \<Rightarrow> service_offering k8s_object \<Rightarrow> osbapi_plan \<Rightarrow> service_plan k8s_object
     \<Rightarrow> service_plan k8s_object res" where
  "servicePlan_mutate env serviceOffering catalogPlan servicePlan =
     (let labels = ((obj_labels servicePlan)
            (RelServiceBrokerLabel env \<mapsto> label (obj_labels serviceOffering) (RelServiceBrokerLabel env)))
            (RelServiceOfferingLabel env \<mapsto> obj_name serviceOffering)
      in case json_Marshal env (plan_metadata catalogPlan) of
           Inl err \<Rightarrow>
             Err (WrapError (''failed to marshal service plan '' @ fmt_q env (plan_id catalogPlan)
                    @ '' metadata: '' @ error_msg err) err)
         | Inr rawMetadata \<Rightarrow>
             Ok (servicePlan\<lparr>obj_labels := labels,
                   obj_spec := \<lparr>sp_name = plan_name catalogPlan,
                                sp_free = plan_free catalogPlan,
                                sp_description = plan_description catalogPlan,
                                sp_catalog_id = plan_id catalogPlan,
                                sp_catalog_metadata = Some rawMetadata,
                                sp_plan_updateable = plan_plan_updateable catalogPlan,
                                sp_bindable = plan_bindable catalogPlan,
                                sp_schemas = plan_schemas catalogPlan\<rparr>\<rparr>))"

definition reconcileCatalogPlan ::
  "env \<Rightarrow> world \<Rightarrow> service_offering k8s_object \<Rightarrow> osbapi_plan \<Rightarrow> unit res \<times> world" where
  "reconcileCatalogPlan env w serviceOffering catalogPlan =
     (let servicePlan =
            \<lparr>obj_name = NamespacedUUID env
                 (label (obj_labels serviceOffering) (RelServiceBrokerLabel env))
                 (plan_id catalogPlan),
             obj_namespace = obj_namespace serviceOffering,
             obj_labels = Map.empty,
             obj_spec = zero_service_plan\<rparr>
      in case CreateOrPatch env CFServicePlan (plans w) (calls w) servicePlan
                (servicePlan_mutate env serviceOffering catalogPlan) of
           (Panic, st, tr) \<Rightarrow> (Panic, w\<lparr>plans := st, calls := tr\<rparr>)
         | (Err err, st, tr) \<Rightarrow> (Err err, w\<lparr>plans := st, calls := tr\<rparr>)
         | (Ok ob, st, tr) \<Rightarrow> (Ok (), w\<lparr>plans := st, calls := tr\<rparr>))"

text \<open>The mutate function of \<open>reconcileCatalogService\<close>.\<close>

definition serviceOffering_mutate ::
  "env \<Rightarrow> cf_service_broker \<Rightarrow> osbapi_service \<Rightarrow> service_offering k8s_object
     \<Rightarrow> service_offering k8s_object res" where
  "serviceOffering_mutate env cfServiceBroker catalogService serviceOffering =
     (case toSpecServiceOffering env catalogService of
        Panic \<Rightarrow> Panic
      | Err err \<Rightarrow> Err err
      | Ok offering \<Rightarrow>
          Ok (serviceOffering\<lparr>
                obj_labels := (obj_labels serviceOffering)
                                (RelServiceBrokerLabel env \<mapsto> b_name cfServiceBroker),
                obj_spec := offering\<rparr>))"

text \<open>The loop of \<open>reconcileCatalogService\<close> over the plans of the service.\<close>

fun reconcileCatalogService_plans ::
  "env \<Rightarrow> world \<Rightarrow> service_offering k8s_object \<Rightarrow> osbapi_service \<Rightarrow> osbapi_plan list
     \<Rightarrow> unit res \<times> world" where
  "reconcileCatalogService_plans env w serviceOffering catalogService [] = (Ok (), w)"
| "reconcileCatalogService_plans env w serviceOffering catalogService (catalogPlan # ps) =
     (case reconcileCatalogPlan env w serviceOffering catalogPlan of
        (Panic, w') \<Rightarrow> (Panic, w')
      | (Err err, w') \<Rightarrow>
          (Err (WrapError (''failed to reconcile service plan '' @ fmt_q env (plan_id catalogPlan)
                  @ '' for service offering '' @ fmt_q env (svc_id catalogService)
                  @ '': '' @ error_msg err) err), w')
      | (Ok u, w') \<Rightarrow> reconcileCatalogService_plans env w' serviceOffering catalogService ps)"

definition reconcileCatalogService ::
  "env \<Rightarrow> world \<Rightarrow> cf_service_broker \<Rightarrow> osbapi_service \<Rightarrow> unit res \<times> world" where
  "reconcileCatalogService env w cfServiceBroker catalogService =
     (let serviceOffering =
            \<lparr>obj_name = NamespacedUUID env (b_name cfServiceBroker) (svc_id catalogService),
             obj_namespace = b_namespace cfServiceBroker,
             obj_labels = Map.empty,
             obj_spec = zero_service_offering\<rparr>
      in case CreateOrPatch env CFServiceOffering (offerings w) (calls w) serviceOffering
                (serviceOffering_mutate env cfServiceBroker catalogService) of
           (Panic, st, tr) \<Rightarrow> (Panic, w\<lparr>offerings := st, calls := tr\<rparr>)
         | (Err err, st, tr) \<Rightarrow>
             (Err (WrapError (''failed to reconcile service offering ''
                     @ fmt_q env (svc_id catalogService) @ '' : '' @ error_msg err) err),
              w\<lparr>offerings := st, calls := tr\<rparr>)
         | (Ok ob, st, tr) \<Rightarrow>
             reconcileCatalogService_plans env (w\<lparr>offerings := st, calls := tr\<rparr>) ob
               catalogService (svc_plans catalogService))"

text \<open>The loop of \<open>reconcileCatalog\<close> over the services of the catalog.\<close>

fun reconcileCatalog_services ::
  "env \<Rightarrow> world \<Rightarrow> cf_service_broker \<Rightarrow> osbapi_service list \<Rightarrow> unit res \<times> world" where
  "reconcileCatalog_services env w cfServiceBroker [] = (Ok (), w)"
| "reconcileCatalog_services env w cfServiceBroker (service # ss) =
     (case reconcileCatalogService env w cfServiceBroker service of
        (Panic, w') \<Rightarrow> (Panic, w')
      | (Err err, w') \<Rightarrow> (Err err, w')
      | (Ok u, w') \<Rightarrow> reconcileCatalog_services env w' cfServiceBroker ss)"

definition reconcileCatalog ::
  "env \<Rightarrow> world \<Rightarrow> cf_service_broker \<Rightarrow> osbapi_catalog \<Rightarrow> unit res \<times> world" where
  "reconcileCatalog env w cfServiceBroker catalog =
     reconcileCatalog_services env w cfServiceBroker (cat_services catalog)"

subsection \<open>ReconcileResource\<close>

text \<open>\<^verbatim>\<open>ctrl.Result\<close>; durations are in nanoseconds, as \<^verbatim>\<open>time.Duration\<close>.\<close>

record ctrl_result =
  requeue :: bool
  requeue_after :: int

definition Second :: int where
  "Second = 1000000000"

definition empty_result :: ctrl_result where
  "empty_result = \<lparr>requeue = False, requeue_after = 0\<rparr>"

text \<open>
  The function body up to a \<^verbatim>\<open>return\<close> statement: the two returned values, and the
  locals the deferred function reads at that moment (the variable \<^verbatim>\<open>err\<close>, the condition
  builder, the broker behind the pointer), with the cluster as the calls left it. The
  body panics when the catalog walk does.
\<close>

datatype body_exit =
    Exit ctrl_result "error option" "error option" ready_condition_builder cf_service_broker world
  | BodyPanic world

definition ReconcileResource_body :: "env \<Rightarrow> cf_service_broker \<Rightarrow> world \<Rightarrow> body_exit" where
  "ReconcileResource_body env cfServiceBroker w =
     (let b1 = cfServiceBroker\<lparr>b_observed_generation := b_generation cfServiceBroker\<rparr>;
          readyConditionBuilder = NewReadyConditionBuilder env
      in case k8s_Get env Secret (secrets w) (calls w) (b_namespace b1, b_credentials_name b1) of
           (Inl err, tr1) \<Rightarrow>
             (if IsNotFound err
              then Exit \<lparr>requeue = False, requeue_after = 2 * Second\<rparr> None (Some err)
                     (WithReason ''CredentialsSecretNotAvailable'' readyConditionBuilder)
                     b1 (w\<lparr>calls := tr1\<rparr>)
              else Exit empty_result (Some err) (Some err)
                     (WithReason ''CredentialsSecretNotAvailable'' readyConditionBuilder)
                     b1 (w\<lparr>calls := tr1\<rparr>))
         | (Inr credentialsSecret, tr1) \<Rightarrow>
             (case validateCredentials env credentialsSecret of
                Some err \<Rightarrow>
                  Exit empty_result (Some err) (Some err)
                    (WithReason ''SecretInvalid'' readyConditionBuilder) b1 (w\<lparr>calls := tr1\<rparr>)
              | None \<Rightarrow>
                  (let b2 = b1\<lparr>b_credentials_observed_version :=
                                  sec_resource_version credentialsSecret\<rparr>;
                       w2 = w\<lparr>calls := tr1 @ [CatalogGet (b_name b2)]\<rparr>
                   in case GetCatalog env b2 of
                        Inl err \<Rightarrow>
                          Exit empty_result (Some err) (Some err)
                            (WithReason ''GetCatalogFailed'' readyConditionBuilder) b2 w2
                      | Inr catalog \<Rightarrow>
                          (case reconcileCatalog env w2 b2 catalog of
                             (Panic, w3) \<Rightarrow> BodyPanic w3
                           | (Err err, w3) \<Rightarrow>
                               Exit empty_result
                                 (Some (PlainError (''failed to reconcile catalog: '' @ error_msg err)))
                                 (Some err) readyConditionBuilder b2 w3
                           | (Ok u, w3) \<Rightarrow>
                               Exit empty_result None None (Ready readyConditionBuilder) b2 w3))))"

text \<open>
  What the caller sees. When the body returns, the deferred function sets the condition
  built from the builder and the value of \<^verbatim>\<open>err\<close> on the broker. After a panic only the
  cluster is described.
\<close>

datatype outcome =
    Returned ctrl_result "error option" cf_service_broker world
  | Panicked world

definition ReconcileResource :: "env \<Rightarrow> cf_service_broker \<Rightarrow> world \<Rightarrow> outcome" where
  "ReconcileResource env cfServiceBroker w =
     (case ReconcileResource_body env cfServiceBroker w of
        BodyPanic w' \<Rightarrow> Panicked w'
      | Exit result ret err readyConditionBuilder b w' \<Rightarrow>
          Returned result ret
            (b\<lparr>b_conditions := SetStatusCondition env (b_conditions b)
                                  (Build env (WithError err readyConditionBuilder))\<rparr>)
            w')"

subsection \<open>Example data\<close>

text \<open>
  A broker, its secret and a catalog, with simple stand-ins for the library functions:
  the name derivation joins its arguments with a dot, the JSON functions know the
  documents below, \<^verbatim>\<open>%q\<close> puts its argument between double quotes, and the API server
  refuses nothing. The plan is the one of the service plan repository test.
\<close>

definition quote :: "string \<Rightarrow> string" where
  "quote s = CHR 0x22 # s @ [CHR 0x22]"

definition example_plan :: osbapi_plan where
  \<open>example_plan =
     \<lparr>plan_id = ''broker-plan-guid'', plan_name = ''my-service-plan'',
      plan_description = ''service plan description'',
      plan_metadata = Some [''foo'' \<mapsto> JString ''bar''],
      plan_free = True, plan_bindable = True, plan_plan_updateable = True,
      plan_schemas = \<lparr>service_instance_create = Some ''{"create-param":"create-value"}'',
                      service_instance_update = None, service_binding_create = None\<rparr>\<rparr>\<close>

definition example_service :: osbapi_service where
  "example_service =
     \<lparr>svc_id = ''service-1'', svc_name = ''my-service'',
      svc_description = ''service description'', svc_tags = [''t1''], svc_requires = [],
      svc_metadata = None,
      svc_features = \<lparr>bcf_plan_updateable = True, bcf_bindable = True\<rparr>,
      svc_plans = [example_plan]\<rparr>"

definition example_catalog :: osbapi_catalog where
  "example_catalog = \<lparr>cat_services = [example_service]\<rparr>"

definition example_env :: env where
  \<open>example_env =
     \<lparr>api_fault = (\<lambda>tr c. None),
      GetCatalog = (\<lambda>b. Inr example_catalog),
      NamespacedUUID = (\<lambda>ns n. ns @ ''.'' @ n),
      json_Unmarshal = (\<lambda>bs.
         if bs = ''{"username":"u","password":"p"}''
         then Inr [''username'' \<mapsto> JString ''u'', ''password'' \<mapsto> JString ''p'']
         else if bs = ''{"username":"u"}'' then Inr [''username'' \<mapsto> JString ''u'']
         else Inl (PlainError ''unexpected end of JSON input'')),
      json_Marshal = (\<lambda>m. case m of
           None \<Rightarrow> Inr ''null''
         | Some f \<Rightarrow> (case f ''foo'' of
                        Some (JString v) \<Rightarrow> Inr (''{"foo":"'' @ v @ ''"}'')
                      | _ \<Rightarrow> Inr ''{}'')),
      fmt_q = quote,
      now = 1000,
      default_reason = ''Unknown'',
      CredentialsSecretKey = ''credentials'',
      UsernameCredentialsKey = ''username'',
      PasswordCredentialsKey = ''password'',
      RelServiceBrokerLabel = ''korifi.cloudfoundry.org/rel-service-broker'',
      RelServiceOfferingLabel = ''korifi.cloudfoundry.org/rel-service-offering''\<rparr>\<close>

definition example_broker :: cf_service_broker where
  "example_broker =
     \<lparr>b_name = ''my-broker'', b_namespace = ''cf'', b_generation = 3,
      b_credentials_name = ''my-broker-secret'', b_observed_generation = 2,
      b_credentials_observed_version = ''41'', b_conditions = []\<rparr>"

definition example_secret :: secret where
  \<open>example_secret =
     \<lparr>sec_name = ''my-broker-secret'', sec_namespace = ''cf'', sec_resource_version = ''42'',
      sec_data = [''credentials'' \<mapsto> ''{"username":"u","password":"p"}'']\<rparr>\<close>

definition example_world :: world where
  "example_world =
     \<lparr>secrets = [(''cf'', ''my-broker-secret'') \<mapsto> example_secret],
      brokers = [example_broker], offerings = Map.empty, plans = Map.empty, calls = []\<rparr>"

text \<open>The offering object as the plan loop receives it for \<open>example_service\<close>.\<close>

definition example_offering :: "service_offering k8s_object" where
  "example_offering =
     \<lparr>obj_name = ''my-broker.service-1'', obj_namespace = ''cf'',
      obj_labels = [''korifi.cloudfoundry.org/rel-service-broker'' \<mapsto> ''my-broker''],
      obj_spec = zero_service_offering\<rparr>"

text \<open>A secret whose credentials lack the password, and a cluster without the secret.\<close>

definition incomplete_secret :: secret where
  \<open>incomplete_secret = example_secret\<lparr>sec_data := [''credentials'' \<mapsto> ''{"username":"u"}'']\<rparr>\<close>

definition incomplete_world :: world where
  "incomplete_world = example_world\<lparr>secrets := [(''cf'', ''my-broker-secret'') \<mapsto> incomplete_secret]\<rparr>"

definition secretless_world :: world where
  "secretless_world = example_world\<lparr>secrets := Map.empty\<rparr>"

text \<open>
  Three services without plans, and an API server that refuses to create the offering of
  the second.
\<close>

definition plain_service :: "string \<Rightarrow> string \<Rightarrow> osbapi_service" where
  "plain_service i n =
     \<lparr>svc_id = i, svc_name = n, svc_description = [], svc_tags = [], svc_requires = [],
      svc_metadata = None,
      svc_features = \<lparr>bcf_plan_updateable = False, bcf_bindable = True\<rparr>,
      svc_plans = []\<rparr>"

definition three_services :: osbapi_catalog where
  "three_services = \<lparr>cat_services =
     [plain_service ''service-1'' ''one'', plain_service ''service-2'' ''two'',
      plain_service ''service-3'' ''three'']\<rparr>"

definition refusing_env :: env where
  "refusing_env = example_env
     \<lparr>api_fault := (\<lambda>tr c. if c = ApiCreate CFServiceOffering (''cf'', ''my-broker.service-2'')
                             then Some (StatusError OtherReason ''admission denied'') else None),
      GetCatalog := (\<lambda>b. Inr three_services)\<rparr>"

text \<open>
  One service with three plans, and an API server that refuses to create the second plan.
\<close>

definition plain_plan :: "string \<Rightarrow> string \<Rightarrow> osbapi_plan" where
  "plain_plan i n =
     \<lparr>plan_id = i, plan_name = n, plan_description = [], plan_metadata = None,
      plan_free = True, plan_bindable = True, plan_plan_updateable = False,
      plan_schemas = zero_schemas\<rparr>"

definition three_plans :: osbapi_catalog where
  "three_plans = \<lparr>cat_services =
     [(plain_service ''service-1'' ''one'')
        \<lparr>svc_plans := [plain_plan ''plan-1'' ''small'', plain_plan ''plan-2'' ''medium'',
                       plain_plan ''plan-3'' ''large'']\<rparr>]\<rparr>"

definition plan_refusing_env :: env where
  "plan_refusing_env = example_env
     \<lparr>api_fault := (\<lambda>tr c. if c = ApiCreate CFServicePlan (''cf'', ''my-broker.plan-2'')
                             then Some (StatusError OtherReason ''admission denied'') else None),
      GetCatalog := (\<lambda>b. Inr three_plans)\<rparr>"

text \<open>A catalog that lists the same service id twice, under two names.\<close>

definition duplicate_ids :: osbapi_catalog where
  "duplicate_ids = \<lparr>cat_services =
     [plain_service ''service-1'' ''first'', plain_service ''service-1'' ''second'']\<rparr>"

text \<open>An API server that refuses to list brokers.\<close>

definition unlistable_env :: env where
  "unlistable_env = example_env
     \<lparr>api_fault := (\<lambda>tr c. case c of
                        ApiList k ns v \<Rightarrow> Some (StatusError OtherReason ''etcdserver: request timed out'')
                      | _ \<Rightarrow> None)\<rparr>"

text \<open>A service whose metadata gives the documentation URL as a list.\<close>

definition undocumented_service :: osbapi_service where
  "undocumented_service = (plain_service ''service-1'' ''one'')
     \<lparr>svc_metadata := Some [''documentationUrl'' \<mapsto> JArray [JString ''https://example.org'']]\<rparr>"

text \<open>The cluster after a first walk over that catalog.\<close>

definition after_duplicate_ids :: world where
  "after_duplicate_ids = snd (reconcileCatalog example_env example_world example_broker duplicate_ids)"

subsection \<open>The desired state of a catalog\<close>

text \<open>
  What the catalog walk is compared with. A successful \<open>CreateOrPatch\<close> with the mutate
  function of an offering or a plan stores, under a key, the object it found there (or a
  fresh one) with some labels added and the spec replaced: \<open>upsert\<close>. An entry is the
  key, the labels and the spec of one such step; \<open>upserts\<close> runs a list of entries.
\<close>

definition fresh :: "'s \<Rightarrow> key \<Rightarrow> 's k8s_object" where
  "fresh z k = \<lparr>obj_name = snd k, obj_namespace = fst k, obj_labels = Map.empty, obj_spec = z\<rparr>"

definition upd :: "(string \<rightharpoonup> string) \<Rightarrow> 's \<Rightarrow> 's k8s_object \<Rightarrow> 's k8s_object" where
  "upd L S ob = ob\<lparr>obj_labels := obj_labels ob ++ L, obj_spec := S\<rparr>"

definition base :: "'s \<Rightarrow> (key \<rightharpoonup> 's k8s_object) \<Rightarrow> key \<Rightarrow> 's k8s_object" where
  "base z st k = (case st k of None \<Rightarrow> fresh z k | Some cur \<Rightarrow> cur)"

type_synonym 's entry = "key \<times> (string \<rightharpoonup> string) \<times> 's"

definition upsert :: "'s \<Rightarrow> 's entry \<Rightarrow> (key \<rightharpoonup> 's k8s_object) \<Rightarrow> (key \<rightharpoonup> 's k8s_object)" where
  "upsert z e st = (case e of (k, L, S) \<Rightarrow> st(k \<mapsto> upd L S (base z st k)))"

definition upserts :: "'s \<Rightarrow> 's entry list \<Rightarrow> (key \<rightharpoonup> 's k8s_object) \<Rightarrow> (key \<rightharpoonup> 's k8s_object)" where
  "upserts z es st = fold (upsert z) es st"

text \<open>The combined effect of a list of entries on one key: the labels they add, one after
  the other, and the spec of the last.\<close>

fun summary :: "'s entry list \<Rightarrow> key \<Rightarrow> ((string \<rightharpoonup> string) \<times> 's) option" where
  "summary [] k = None"
| "summary (e # es) k =
     (if fst e = k
      then (case summary es k of
              None \<Rightarrow> Some (snd e)
            | Some (A, S') \<Rightarrow> Some (fst (snd e) ++ A, S'))
      else summary es k)"

text \<open>The entries of a catalog: the specs, keys and labels the two mutate functions produce.\<close>

definition plan_spec :: "env \<Rightarrow> osbapi_plan \<Rightarrow> service_plan" where
  "plan_spec env p =
     \<lparr>sp_name = plan_name p, sp_free = plan_free p, sp_description = plan_description p,
      sp_catalog_id = plan_id p,
      sp_catalog_metadata = (case json_Marshal env (plan_metadata p) of Inl e \<Rightarrow> None | Inr raw \<Rightarrow> Some raw),
      sp_plan_updateable = plan_plan_updateable p, sp_bindable = plan_bindable p,
      sp_schemas = plan_schemas p\<rparr>"

definition offering_spec :: "env \<Rightarrow> osbapi_service \<Rightarrow> service_offering" where
  "offering_spec env s = (case toSpecServiceOffering env s of Ok sp \<Rightarrow> sp | _ \<Rightarrow> zero_service_offering)"

definition offering_key :: "env \<Rightarrow> cf_service_broker \<Rightarrow> osbapi_service \<Rightarrow> key" where
  "offering_key env b s = (b_namespace b, NamespacedUUID env (b_name b) (svc_id s))"

definition plan_key :: "env \<Rightarrow> cf_service_broker \<Rightarrow> osbapi_plan \<Rightarrow> key" where
  "plan_key env b p = (b_namespace b, NamespacedUUID env (b_name b) (plan_id p))"

definition offering_entry :: "env \<Rightarrow> cf_service_broker \<Rightarrow> osbapi_service \<Rightarrow> service_offering entry" where
  "offering_entry env b s =
     (offering_key env b s, [RelServiceBrokerLabel env \<mapsto> b_name b], offering_spec env s)"

definition plan_entry :: "env \<Rightarrow> cf_service_broker \<Rightarrow> osbapi_service \<Rightarrow> osbapi_plan \<Rightarrow> service_plan entry" where
  "plan_entry env b s p =
     (plan_key env b p,
      [RelServiceBrokerLabel env \<mapsto> b_name b,
       RelServiceOfferingLabel env \<mapsto> NamespacedUUID env (b_name b) (svc_id s)],
      plan_spec env p)"

definition offering_entries :: "env \<Rightarrow> cf_service_broker \<Rightarrow> osbapi_service list \<Rightarrow> service_offering entry list" where
  "offering_entries env b ss = map (offering_entry env b) ss"

definition plan_entries :: "env \<Rightarrow> cf_service_broker \<Rightarrow> osbapi_service list \<Rightarrow> service_plan entry list" where
  "plan_entries env b ss = concat (map (\<lambda>s. map (plan_entry env b s) (svc_plans s)) ss)"

text \<open>The offering object handed to the plan loop belongs to the broker and the service.\<close>

definition offering_of :: "env \<Rightarrow> cf_service_broker \<Rightarrow> osbapi_service \<Rightarrow> service_offering k8s_object \<Rightarrow> bool" where
  "offering_of env b s ob \<longleftrightarrow>
     obj_key ob = offering_key env b s \<and> label (obj_labels ob) (RelServiceBrokerLabel env) = b_name b"

definition keys_present :: "env \<Rightarrow> cf_service_broker \<Rightarrow> osbapi_service list \<Rightarrow> world \<Rightarrow> bool" where
  "keys_present env b ss w \<longleftrightarrow>
     offering_key env b ` set ss \<subseteq> dom (offerings w)
     \<and> plan_key env b ` (\<Union>s\<in>set ss. set (svc_plans s)) \<subseteq> dom (plans w)"

text \<open>
  Where a walk stops: at the offering of service \<open>i\<close>, or at plan \<open>j\<close> of service \<open>i\<close>
  (counted from 0). \<open>services_before\<close> is the catalog cut off just before that entry.
\<close>

datatype position = AtOffering nat | AtPlan nat nat

fun position_in :: "position \<Rightarrow> osbapi_service list \<Rightarrow> bool" where
  "position_in (AtOffering i) ss = (i < length ss)"
| "position_in (AtPlan i j) ss = (i < length ss \<and> j < length (svc_plans (ss ! i)))"

fun services_before :: "position \<Rightarrow> osbapi_service list \<Rightarrow> osbapi_service list" where
  "services_before (AtOffering i) ss = take i ss"
| "services_before (AtPlan i j) ss =
     take i ss @ [(ss ! i)\<lparr>svc_plans := take j (svc_plans (ss ! i))\<rparr>]"

text \<open>
  The upsert the walk does for the entry at a position, run on a given cluster: the
  \<open>CreateOrPatch\<close> of \<open>reconcileCatalogService\<close> for an offering, that of
  \<open>reconcileCatalogPlan\<close> for a plan, with the offering object as the cluster holds it.
  When it fails, \<open>failed_upsert\<close> gives the error as \<open>reconcileCatalogService\<close> wraps
  it, and the trace after the upsert; otherwise nothing.
\<close>

definition failed_upsert ::
  "env \<Rightarrow> cf_service_broker \<Rightarrow> world \<Rightarrow> osbapi_service list \<Rightarrow> position
     \<Rightarrow> (error \<times> call list) option" where
  "failed_upsert env cfServiceBroker w ss pos =
     (case pos of
        AtOffering i \<Rightarrow>
          (let catalogService = ss ! i in
           case CreateOrPatch env CFServiceOffering (offerings w) (calls w)
                  \<lparr>obj_name = NamespacedUUID env (b_name cfServiceBroker) (svc_id catalogService),
                   obj_namespace = b_namespace cfServiceBroker,
                   obj_labels = Map.empty,
                   obj_spec = zero_service_offering\<rparr>
                  (serviceOffering_mutate env cfServiceBroker catalogService) of
             (Err err, st, tr) \<Rightarrow>
               Some (WrapError (''failed to reconcile service offering ''
                       @ fmt_q env (svc_id catalogService) @ '' : '' @ error_msg err) err, tr)
           | (Ok ob, st, tr) \<Rightarrow> None
           | (Panic, st, tr) \<Rightarrow> None)
      | AtPlan i j \<Rightarrow>
          (let catalogService = ss ! i; catalogPlan = svc_plans catalogService ! j in
           case offerings w (b_namespace cfServiceBroker,
                             NamespacedUUID env (b_name cfServiceBroker) (svc_id catalogService)) of
             None \<Rightarrow> None
           | Some serviceOffering \<Rightarrow>
               (case CreateOrPatch env CFServicePlan (plans w) (calls w)
                       \<lparr>obj_name = NamespacedUUID env
                            (label (obj_labels serviceOffering) (RelServiceBrokerLabel env))
                            (plan_id catalogPlan),
                        obj_namespace = obj_namespace serviceOffering,
                        obj_labels = Map.empty,
                        obj_spec = zero_service_plan\<rparr>
                       (servicePlan_mutate env serviceOffering catalogPlan) of
                  (Err err, st, tr) \<Rightarrow>
                    Some (WrapError (''failed to reconcile service plan '' @ fmt_q env (plan_id catalogPlan)
                            @ '' for service offering '' @ fmt_q env (svc_id catalogService)
                            @ '': '' @ error_msg err) err, tr)
                | (Ok ob, st, tr) \<Rightarrow> None
                | (Panic, st, tr) \<Rightarrow> None)))"

text \<open>The calls of a single \<open>CreateOrPatch\<close>: a read, then at most one write of the same object.\<close>

fun one_upsert :: "call list \<Rightarrow> bool" where
  "one_upsert [ApiGet k ky] = True"
| "one_upsert [ApiGet k ky, ApiCreate k' ky'] = (k' = k \<and> ky' = ky)"
| "one_upsert [ApiGet k ky, ApiPatch k' ky'] = (k' = k \<and> ky' = ky)"
| "one_upsert cs = False"

fun is_create :: "call \<Rightarrow> bool" where
  "is_create (ApiCreate k ky) = True"
| "is_create c = False"

fun is_write :: "call \<Rightarrow> bool" where
  "is_write (ApiCreate k ky) = True"
| "is_write (ApiPatch k ky) = True"
| "is_write c = False"

section \<open>Properties\<close>

subsection \<open>CreateOrPatch\<close>

lemma CreateOrPatch_Ok:
  assumes "CreateOrPatch env k st tr ob f = (Ok ob', st', tr')"
  shows "f (case st (obj_key ob) of None \<Rightarrow> ob | Some cur \<Rightarrow> cur) = Ok ob'
       \<and> obj_key ob' = obj_key ob \<and> st' = st(obj_key ob \<mapsto> ob')"
  using assms
  by (auto simp: CreateOrPatch_def k8s_Get_def k8s_Create_def k8s_Patch_def mutate_def Let_def
           split: option.splits if_splits res.splits prod.splits sum.splits)

lemma CreateOrPatch_not_Ok:
  assumes "CreateOrPatch env k st tr ob f = (r, st', tr')" and "\<forall>x. r \<noteq> Ok x"
  shows "st' = st"
  using assms
  by (auto simp: CreateOrPatch_def k8s_Get_def k8s_Create_def k8s_Patch_def mutate_def Let_def
           split: option.splits if_splits res.splits prod.splits sum.splits)

lemma CreateOrPatch_calls:
  assumes "CreateOrPatch env k st tr ob f = (r, st', tr')"
  shows "tr' = tr @ [ApiGet k (obj_key ob)] \<or> tr' = tr @ [ApiGet k (obj_key ob), ApiCreate k (obj_key ob)]
       \<or> tr' = tr @ [ApiGet k (obj_key ob), ApiPatch k (obj_key ob)]"
  using assms
  by (auto simp: CreateOrPatch_def k8s_Get_def k8s_Create_def k8s_Patch_def mutate_def Let_def
           split: option.splits if_splits res.splits prod.splits sum.splits)

lemma CreateOrPatch_one_upsert:
  assumes "CreateOrPatch env k st tr ob f = (r, st', tr')"
  shows "\<exists>cs. tr' = tr @ cs \<and> one_upsert cs"
  using CreateOrPatch_calls[OF assms] by auto

lemma obj_key_fresh: "obj_key (fresh z ky) = ky"
  by (simp add: obj_key_def fresh_def)

lemma CreateOrPatch_fresh_Ok:
  assumes "CreateOrPatch env k st tr (fresh z ky) f = (Ok ob', st', tr')"
  shows "f (base z st ky) = Ok ob'" and "obj_key ob' = ky" and "st' = st(ky \<mapsto> ob')"
  using CreateOrPatch_Ok[OF assms] by (simp_all add: obj_key_fresh base_def)

lemma CreateOrPatch_fresh_Ok_calls:
  assumes "CreateOrPatch env k st tr (fresh z ky) f = (Ok ob', st', tr')"
  shows "tr' = tr @ ApiGet k ky #
           (case st ky of None \<Rightarrow> [ApiCreate k ky]
            | Some cur \<Rightarrow> if ob' = cur then [] else [ApiPatch k ky])"
  using assms unfolding CreateOrPatch_def obj_key_fresh
  by (auto simp: k8s_Get_def k8s_Create_def k8s_Patch_def mutate_def Let_def
           split: option.splits if_splits res.splits prod.splits sum.splits)


subsection \<open>Sequences of upserts\<close>

lemma upserts_Cons: "upserts z (e # es) st = upserts z es (upsert z e st)"
  by (simp add: upserts_def)

lemma upserts_Nil: "upserts z [] st = st"
  by (simp add: upserts_def)

lemma upserts_append: "upserts z (es @ fs) st = upserts z fs (upserts z es st)"
  by (simp add: upserts_def)

lemma upd_upd: "upd A S' (upd L S ob) = upd (L ++ A) S' ob"
  by (simp add: upd_def)

lemma map_add_twice: "m ++ A ++ A = m ++ A"
  by (rule ext) (simp add: map_add_def split: option.splits)

lemma upd_idem: "upd A S (upd A S ob) = upd A S ob"
  by (simp add: upd_def map_add_twice)

lemma upserts_summary:
  "upserts z es st k =
     (case summary es k of None \<Rightarrow> st k | Some (A, S) \<Rightarrow> Some (upd A S (base z st k)))"
proof (induction es arbitrary: st)
  case Nil
  then show ?case by (simp add: upserts_Nil)
next
  case (Cons e es)
  obtain k0 L S where e: "e = (k0, L, S)" by (cases e) auto
  show ?case
  proof (cases "k0 = k")
    case True
    have 1: "upsert z (k0, L, S) st k = Some (upd L S (base z st k))"
      and 2: "base z (upsert z (k0, L, S) st) k = upd L S (base z st k)"
      using True by (simp_all add: upsert_def base_def)
    show ?thesis
      unfolding e upserts_Cons Cons.IH 1 2
      using True by (simp add: upd_upd split: option.splits)
  next
    case False
    have 1: "upsert z (k0, L, S) st k = st k"
      and 2: "base z (upsert z (k0, L, S) st) k = base z st k"
      using False by (simp_all add: upsert_def base_def)
    show ?thesis
      unfolding e upserts_Cons Cons.IH 1 2
      using False by simp
  qed
qed

lemma upserts_idem: "upserts z es (upserts z es st) = upserts z es st"
proof
  fix k
  show "upserts z es (upserts z es st) k = upserts z es st k"
  proof (cases "summary es k")
    case None
    then show ?thesis by (simp add: upserts_summary)
  next
    case (Some a)
    obtain A S where a: "a = (A, S)" by (cases a) auto
    have "base z (upserts z es st) k = upd A S (base z st k)"
      using Some a by (simp add: base_def upserts_summary[of z es st k])
    then show ?thesis
      using Some a by (simp add: upserts_summary[of z es _ k] upd_idem)
  qed
qed

lemma summary_None: "summary es k = None \<longleftrightarrow> k \<notin> fst ` set es"
  by (induction es) (auto split: option.splits)

lemma dom_upserts: "dom (upserts z es st) = dom st \<union> fst ` set es"
proof -
  have "k \<in> dom (upserts z es st) \<longleftrightarrow> k \<in> dom st \<union> fst ` set es" for k
  proof (cases "summary es k")
    case None
    then show ?thesis using summary_None[of es k] by (simp add: upserts_summary dom_def)
  next
    case (Some a)
    then have "k \<in> fst ` set es" using summary_None[of es k] by simp
    then show ?thesis using Some by (auto simp: upserts_summary dom_def split: prod.splits)
  qed
  then show ?thesis by blast
qed

lemma summary_distinct:
  "distinct (map fst es) \<Longrightarrow> (k, L, S) \<in> set es \<Longrightarrow> summary es k = Some (L, S)"
proof (induction es)
  case Nil
  then show ?case by simp
next
  case (Cons e es)
  show ?case
  proof (cases "e = (k, L, S)")
    case True
    then have "k \<notin> fst ` set es" using Cons.prems(1) by auto
    then have "summary es k = None" by (simp add: summary_None)
    then show ?thesis using True by simp
  next
    case False
    then have in_es: "(k, L, S) \<in> set es" using Cons.prems(2) by auto
    then have "k \<in> fst ` set es" by force
    then have "fst e \<noteq> k" using Cons.prems(1) by auto
    then show ?thesis using Cons.IH in_es Cons.prems(1) by simp
  qed
qed

lemma upserts_fixed:
  assumes "distinct (map fst es)" and "(k, L, S) \<in> set es"
  shows "\<exists>cur. upserts z es st k = Some cur \<and> upd L S cur = cur"
  using summary_distinct[OF assms] by (simp add: upserts_summary upd_idem)

lemma map_fst_offering_entries: "map fst (offering_entries env b ss) = map (offering_key env b) ss"
  by (simp add: offering_entries_def offering_entry_def)

lemma map_fst_plan_entries:
  "map fst (plan_entries env b ss) = map (plan_key env b) (concat (map svc_plans ss))"
  by (induction ss) (simp_all add: plan_entries_def plan_entry_def)

subsection \<open>The catalog walk\<close>

lemma serviceOffering_mutate_Ok:
  assumes "serviceOffering_mutate env b s cur = Ok ob"
  shows "toSpecServiceOffering env s = Ok (offering_spec env s)"
    and "ob = upd [RelServiceBrokerLabel env \<mapsto> b_name b] (offering_spec env s) cur"
  using assms
  by (auto simp: serviceOffering_mutate_def offering_spec_def upd_def split: res.splits)

lemma servicePlan_mutate_Ok:
  assumes "servicePlan_mutate env so p cur = Ok ob" and "offering_of env b s so"
  shows "ob = upd (fst (snd (plan_entry env b s p))) (plan_spec env p) cur"
  using assms
  by (auto simp: servicePlan_mutate_def upd_def plan_spec_def plan_entry_def offering_of_def
        offering_key_def obj_key_def Let_def split: sum.splits)

lemma toSpecServiceOffering_plans:
  "toSpecServiceOffering env (s\<lparr>svc_plans := ps\<rparr>) = toSpecServiceOffering env s"
  by (simp add: toSpecServiceOffering_def)

lemma reconcileCatalogPlan_unfold:
  assumes "offering_of env b s so"
  shows "reconcileCatalogPlan env w so p =
     (case CreateOrPatch env CFServicePlan (plans w) (calls w)
             (fresh zero_service_plan (plan_key env b p)) (servicePlan_mutate env so p) of
        (Panic, st, tr) \<Rightarrow> (Panic, w\<lparr>plans := st, calls := tr\<rparr>)
      | (Err err, st, tr) \<Rightarrow> (Err err, w\<lparr>plans := st, calls := tr\<rparr>)
      | (Ok ob, st, tr) \<Rightarrow> (Ok (), w\<lparr>plans := st, calls := tr\<rparr>))"
  using assms
  by (simp add: reconcileCatalogPlan_def fresh_def plan_key_def offering_of_def offering_key_def
        obj_key_def)

lemma reconcileCatalogService_unfold:
  "reconcileCatalogService env w b s =
     (case CreateOrPatch env CFServiceOffering (offerings w) (calls w)
             (fresh zero_service_offering (offering_key env b s)) (serviceOffering_mutate env b s) of
        (Panic, st, tr) \<Rightarrow> (Panic, w\<lparr>offerings := st, calls := tr\<rparr>)
      | (Err err, st, tr) \<Rightarrow>
          (Err (WrapError (''failed to reconcile service offering ''
                  @ fmt_q env (svc_id s) @ '' : '' @ error_msg err) err),
           w\<lparr>offerings := st, calls := tr\<rparr>)
      | (Ok ob, st, tr) \<Rightarrow>
          reconcileCatalogService_plans env (w\<lparr>offerings := st, calls := tr\<rparr>) ob s (svc_plans s))"
  by (simp add: reconcileCatalogService_def fresh_def offering_key_def)

lemma reconcileCatalogPlan_Ok:
  assumes "reconcileCatalogPlan env w so p = (Ok u, w')" and "offering_of env b s so"
  shows "plans w' = upsert zero_service_plan (plan_entry env b s p) (plans w)"
    and "offerings w' = offerings w" and "secrets w' = secrets w" and "brokers w' = brokers w"
proof -
  let ?sp = "\<lparr>obj_name = NamespacedUUID env (label (obj_labels so) (RelServiceBrokerLabel env)) (plan_id p),
             obj_namespace = obj_namespace so, obj_labels = Map.empty, obj_spec = zero_service_plan\<rparr>"
  from assms(1) obtain ob st tr where
    cop: "CreateOrPatch env CFServicePlan (plans w) (calls w) ?sp (servicePlan_mutate env so p) = (Ok ob, st, tr)"
    and w': "w' = w\<lparr>plans := st, calls := tr\<rparr>"
    by (auto simp: reconcileCatalogPlan_def Let_def split: prod.splits res.splits)
  have k: "obj_key ?sp = plan_key env b p"
    using assms(2) by (auto simp: obj_key_def plan_key_def offering_of_def offering_key_def)
  have fr: "?sp = fresh zero_service_plan (plan_key env b p)"
    using k[symmetric] by (simp add: fresh_def obj_key_def)
  from CreateOrPatch_Ok[OF cop] have
    m: "servicePlan_mutate env so p (base zero_service_plan (plans w) (plan_key env b p)) = Ok ob"
    and st: "st = (plans w)(plan_key env b p \<mapsto> ob)"
    unfolding k base_def fr[symmetric] by auto
  have "ob = upd [RelServiceBrokerLabel env \<mapsto> b_name b,
       RelServiceOfferingLabel env \<mapsto> NamespacedUUID env (b_name b) (svc_id s)] (plan_spec env p)
        (base zero_service_plan (plans w) (plan_key env b p))"
    using m assms(2)
    by (auto simp: servicePlan_mutate_def upd_def plan_spec_def offering_of_def offering_key_def obj_key_def Let_def
             split: sum.splits)
  then show "plans w' = upsert zero_service_plan (plan_entry env b s p) (plans w)"
    using st w' by (simp add: upsert_def plan_entry_def)
  show "offerings w' = offerings w" "secrets w' = secrets w" "brokers w' = brokers w"
    using w' by simp_all
qed

lemma plans_loop_Ok:
  assumes "reconcileCatalogService_plans env w so s ps = (Ok u, w')" and "offering_of env b s so"
  shows "plans w' = upserts zero_service_plan (map (plan_entry env b s) ps) (plans w)
       \<and> offerings w' = offerings w \<and> secrets w' = secrets w \<and> brokers w' = brokers w"
  using assms(1)
proof (induction ps arbitrary: w)
  case Nil
  then show ?case by (simp add: upserts_Nil)
next
  case (Cons p ps)
  from Cons.prems obtain u1 w1 where
    p: "reconcileCatalogPlan env w so p = (Ok u1, w1)"
    and rest: "reconcileCatalogService_plans env w1 so s ps = (Ok u, w')"
    by (auto split: prod.splits res.splits)
  show ?case
    using reconcileCatalogPlan_Ok[OF p assms(2)] Cons.IH[OF rest]
    by (simp add: upserts_Cons)
qed

lemma reconcileCatalogService_Ok:
  assumes "reconcileCatalogService env w b s = (Ok u, w')"
  shows "offerings w' = upsert zero_service_offering (offering_entry env b s) (offerings w)
       \<and> plans w' = upserts zero_service_plan (map (plan_entry env b s) (svc_plans s)) (plans w)
       \<and> secrets w' = secrets w \<and> brokers w' = brokers w"
proof -
  let ?so = "\<lparr>obj_name = NamespacedUUID env (b_name b) (svc_id s), obj_namespace = b_namespace b,
              obj_labels = Map.empty, obj_spec = zero_service_offering\<rparr>"
  from assms obtain ob st tr where
    cop: "CreateOrPatch env CFServiceOffering (offerings w) (calls w) ?so (serviceOffering_mutate env b s) = (Ok ob, st, tr)"
    and loop: "reconcileCatalogService_plans env (w\<lparr>offerings := st, calls := tr\<rparr>) ob s (svc_plans s) = (Ok u, w')"
    by (auto simp: reconcileCatalogService_def Let_def split: prod.splits res.splits)
  have k: "obj_key ?so = offering_key env b s"
    by (simp add: obj_key_def offering_key_def)
  have fr: "?so = fresh zero_service_offering (offering_key env b s)"
    by (simp add: fresh_def offering_key_def)
  from CreateOrPatch_Ok[OF cop] have
    m: "serviceOffering_mutate env b s (base zero_service_offering (offerings w) (offering_key env b s)) = Ok ob"
    and ko: "obj_key ob = offering_key env b s"
    and st: "st = (offerings w)(offering_key env b s \<mapsto> ob)"
    unfolding k base_def fr[symmetric] by auto
  note ob = serviceOffering_mutate_Ok(2)[OF m]
  have of: "offering_of env b s ob"
    using ko by (simp add: offering_of_def ob upd_def label_def)
  have st': "st = upsert zero_service_offering (offering_entry env b s) (offerings w)"
    using st ob by (simp add: upsert_def offering_entry_def)
  show ?thesis
    using plans_loop_Ok[OF loop of] by (simp add: st')
qed

lemma reconcileCatalog_services_Ok:
  assumes "reconcileCatalog_services env w b ss = (Ok u, w')"
  shows "offerings w' = upserts zero_service_offering (offering_entries env b ss) (offerings w)
       \<and> plans w' = upserts zero_service_plan (plan_entries env b ss) (plans w)
       \<and> secrets w' = secrets w \<and> brokers w' = brokers w"
  using assms
proof (induction ss arbitrary: w)
  case Nil
  then show ?case by (simp add: upserts_Nil offering_entries_def plan_entries_def)
next
  case (Cons s ss)
  from Cons.prems obtain u1 w1 where
    s: "reconcileCatalogService env w b s = (Ok u1, w1)"
    and rest: "reconcileCatalog_services env w1 b ss = (Ok u, w')"
    by (auto split: prod.splits res.splits)
  show ?case
    using reconcileCatalogService_Ok[OF s] Cons.IH[OF rest]
    by (simp add: upserts_Cons upserts_append offering_entries_def plan_entries_def)
qed

text \<open>Conversely, a walk that returns an error stopped at some entry, after a successful walk
  over the catalog cut off before it.\<close>

lemma reconcileCatalogPlan_not_Ok:
  assumes "reconcileCatalogPlan env w so p = (r, w')" and "r \<noteq> Ok ()"
  shows "offerings w' = offerings w \<and> plans w' = plans w \<and> secrets w' = secrets w
       \<and> brokers w' = brokers w \<and> (\<exists>cs. calls w' = calls w @ cs \<and> one_upsert cs)"
proof -
  let ?sp = "\<lparr>obj_name = NamespacedUUID env (label (obj_labels so) (RelServiceBrokerLabel env)) (plan_id p),
             obj_namespace = obj_namespace so, obj_labels = Map.empty, obj_spec = zero_service_plan\<rparr>"
  obtain r0 st tr where
    cop: "CreateOrPatch env CFServicePlan (plans w) (calls w) ?sp (servicePlan_mutate env so p) = (r0, st, tr)"
    by (metis prod_cases3)
  have w': "w' = w\<lparr>plans := st, calls := tr\<rparr>" and r0: "\<forall>x. r0 \<noteq> Ok x"
    using assms cop by (auto simp: reconcileCatalogPlan_def Let_def split: res.splits)
  show ?thesis
    using CreateOrPatch_not_Ok[OF cop r0] CreateOrPatch_one_upsert[OF cop] w' by simp
qed

lemma plans_loop_svc:
  "svc_id s' = svc_id s \<Longrightarrow>
   reconcileCatalogService_plans env w so s' ps = reconcileCatalogService_plans env w so s ps"
  by (induction ps arbitrary: w) (auto split: prod.splits res.splits)

lemma plans_loop_Err:
  assumes "reconcileCatalogService_plans env w so s ps = (Err cause, w')"
  shows "\<exists>j w1 cs. j < length ps
       \<and> reconcileCatalogService_plans env w so s (take j ps) = (Ok (), w1)
       \<and> offerings w' = offerings w1 \<and> plans w' = plans w1
       \<and> calls w' = calls w1 @ cs \<and> one_upsert cs"
  using assms
proof (induction ps arbitrary: w)
  case Nil
  then show ?case by simp
next
  case (Cons p ps)
  obtain r w1 where p: "reconcileCatalogPlan env w so p = (r, w1)" by (cases "reconcileCatalogPlan env w so p")
  show ?case
  proof (cases r)
    case (Ok u)
    then have rest: "reconcileCatalogService_plans env w1 so s ps = (Err cause, w')"
      using Cons.prems p by simp
    from Cons.IH[OF rest] obtain j w2 cs where
      "j < length ps" "reconcileCatalogService_plans env w1 so s (take j ps) = (Ok (), w2)"
      "offerings w' = offerings w2" "plans w' = plans w2" "calls w' = calls w2 @ cs" "one_upsert cs"
      by blast
    then show ?thesis
      using p Ok by (intro exI[of _ "Suc j"] exI[of _ w2] exI[of _ cs]) simp
  next
    case (Err e)
    then have w': "w1 = w'" using Cons.prems p by simp
    have "r \<noteq> Ok ()" using Err by simp
    from reconcileCatalogPlan_not_Ok[OF p this] w'
    show ?thesis by (intro exI[of _ 0] exI[of _ w]) auto
  next
    case Panic
    then show ?thesis using Cons.prems p by simp
  qed
qed

lemma reconcileCatalogService_Err:
  assumes "reconcileCatalogService env w b s = (Err cause, w')"
  shows "(offerings w' = offerings w \<and> plans w' = plans w
          \<and> (\<exists>cs. calls w' = calls w @ cs \<and> one_upsert cs))
       \<or> (\<exists>j w1 cs. j < length (svc_plans s)
            \<and> reconcileCatalogService env w b (s\<lparr>svc_plans := take j (svc_plans s)\<rparr>) = (Ok (), w1)
            \<and> offerings w' = offerings w1 \<and> plans w' = plans w1
            \<and> calls w' = calls w1 @ cs \<and> one_upsert cs)"
proof -
  obtain r st tr where
    cop: "CreateOrPatch env CFServiceOffering (offerings w) (calls w)
            (fresh zero_service_offering (offering_key env b s)) (serviceOffering_mutate env b s) = (r, st, tr)"
    by (metis prod_cases3)
  show ?thesis
  proof (cases r)
    case (Ok ob)
    then have loop: "reconcileCatalogService_plans env (w\<lparr>offerings := st, calls := tr\<rparr>) ob s (svc_plans s)
                      = (Err cause, w')"
      using assms cop by (simp add: reconcileCatalogService_unfold)
    from plans_loop_Err[OF loop] obtain j w1 cs where j: "j < length (svc_plans s)"
      and ok: "reconcileCatalogService_plans env (w\<lparr>offerings := st, calls := tr\<rparr>) ob s
                 (take j (svc_plans s)) = (Ok (), w1)"
      and eq: "offerings w' = offerings w1" "plans w' = plans w1" "calls w' = calls w1 @ cs" "one_upsert cs"
      by blast
    let ?s = "s\<lparr>svc_plans := take j (svc_plans s)\<rparr>"
    have m: "serviceOffering_mutate env b ?s = serviceOffering_mutate env b s"
      by (rule ext) (simp add: serviceOffering_mutate_def toSpecServiceOffering_plans)
    have "reconcileCatalogService env w b ?s = (Ok (), w1)"
      using cop Ok ok plans_loop_svc[of ?s s env _ ob "take j (svc_plans s)"]
      by (simp add: reconcileCatalogService_unfold m offering_key_def)
    then show ?thesis using j eq by blast
  next
    case (Err e)
    then have w': "w' = w\<lparr>offerings := st, calls := tr\<rparr>"
      using assms cop by (simp add: reconcileCatalogService_unfold)
    have "\<forall>x. r \<noteq> Ok x" using Err by simp
    from CreateOrPatch_not_Ok[OF cop this] CreateOrPatch_one_upsert[OF cop] w'
    show ?thesis by simp
  next
    case Panic
    then show ?thesis using assms cop by (simp add: reconcileCatalogService_unfold)
  qed
qed

lemma reconcileCatalog_services_Err:
  assumes "reconcileCatalog_services env w b ss = (Err cause, w')"
  shows "\<exists>pos w1 cs. position_in pos ss
       \<and> reconcileCatalog_services env w b (services_before pos ss) = (Ok (), w1)
       \<and> offerings w' = offerings w1 \<and> plans w' = plans w1
       \<and> calls w' = calls w1 @ cs \<and> one_upsert cs"
  using assms
proof (induction ss arbitrary: w)
  case Nil
  then show ?case by simp
next
  case (Cons s ss)
  obtain r w0 where s: "reconcileCatalogService env w b s = (r, w0)"
    by (cases "reconcileCatalogService env w b s")
  show ?case
  proof (cases r)
    case (Ok u)
    then have rest: "reconcileCatalog_services env w0 b ss = (Err cause, w')"
      using Cons.prems s by simp
    from Cons.IH[OF rest] obtain pos w1 cs where pos: "position_in pos ss"
      and ok: "reconcileCatalog_services env w0 b (services_before pos ss) = (Ok (), w1)"
      and eq: "offerings w' = offerings w1" "plans w' = plans w1" "calls w' = calls w1 @ cs" "one_upsert cs"
      by blast
    let ?pos = "case pos of AtOffering i \<Rightarrow> AtOffering (Suc i) | AtPlan i j \<Rightarrow> AtPlan (Suc i) j"
    have 1: "position_in ?pos (s # ss)" using pos by (cases pos) simp_all
    have 2: "services_before ?pos (s # ss) = s # services_before pos ss" by (cases pos) simp_all
    have "reconcileCatalog_services env w b (services_before ?pos (s # ss)) = (Ok (), w1)"
      unfolding 2 using s Ok ok by simp
    then show ?thesis using 1 eq by blast
  next
    case (Err e)
    then have e: "reconcileCatalogService env w b s = (Err cause, w')"
      using Cons.prems s by simp
    from reconcileCatalogService_Err[OF e] show ?thesis
    proof
      assume a: "offerings w' = offerings w \<and> plans w' = plans w
          \<and> (\<exists>cs. calls w' = calls w @ cs \<and> one_upsert cs)"
      then obtain cs where "calls w' = calls w @ cs" "one_upsert cs" by blast
      then show ?thesis using a
        by (intro exI[of _ "AtOffering 0"] exI[of _ w] exI[of _ cs]) simp
    next
      assume "\<exists>j w1 cs. j < length (svc_plans s)
            \<and> reconcileCatalogService env w b (s\<lparr>svc_plans := take j (svc_plans s)\<rparr>) = (Ok (), w1)
            \<and> offerings w' = offerings w1 \<and> plans w' = plans w1
            \<and> calls w' = calls w1 @ cs \<and> one_upsert cs"
      then obtain j w1 cs where "j < length (svc_plans s)"
        "reconcileCatalogService env w b (s\<lparr>svc_plans := take j (svc_plans s)\<rparr>) = (Ok (), w1)"
        "offerings w' = offerings w1" "plans w' = plans w1" "calls w' = calls w1 @ cs" "one_upsert cs"
        by blast
      then show ?thesis
        by (intro exI[of _ "AtPlan 0 j"] exI[of _ w1] exI[of _ cs]) simp
    qed
  next
    case Panic
    then show ?thesis using Cons.prems s by simp
  qed
qed

text \<open>An invariant kept by every successful upsert holds after a successful walk.\<close>

lemma plans_loop_Ok_induct:
  assumes "reconcileCatalogService_plans env w so s ps = (Ok u, w')" and "I w"
    and "offering_of env b s so"
    and pl: "\<And>w p ob st tr. \<lbrakk>I w; p \<in> set ps;
            CreateOrPatch env CFServicePlan (plans w) (calls w)
              (fresh zero_service_plan (plan_key env b p)) (servicePlan_mutate env so p) = (Ok ob, st, tr)\<rbrakk>
          \<Longrightarrow> I (w\<lparr>plans := st, calls := tr\<rparr>)"
  shows "I w'"
  using assms(1,2) pl
proof (induction ps arbitrary: w)
  case Nil
  then show ?case by simp
next
  case (Cons p ps)
  from Cons.prems(1) obtain u1 w1 where
    p: "reconcileCatalogPlan env w so p = (Ok u1, w1)"
    and rest: "reconcileCatalogService_plans env w1 so s ps = (Ok u, w')"
    by (auto split: prod.splits res.splits)
  from p obtain ob st tr where
    cop: "CreateOrPatch env CFServicePlan (plans w) (calls w)
              (fresh zero_service_plan (plan_key env b p)) (servicePlan_mutate env so p) = (Ok ob, st, tr)"
    and w1: "w1 = w\<lparr>plans := st, calls := tr\<rparr>"
    unfolding reconcileCatalogPlan_unfold[OF assms(3)]
    by (auto split: prod.splits res.splits)
  have 1: "I w1" unfolding w1 using Cons.prems(2) cop by (intro Cons.prems(3)) simp_all
  show ?case
  proof (rule Cons.IH[OF rest 1])
    fix w q ob st tr
    assume a: "I w" "q \<in> set ps"
      "CreateOrPatch env CFServicePlan (plans w) (calls w)
         (fresh zero_service_plan (plan_key env b q)) (servicePlan_mutate env so q) = (Ok ob, st, tr)"
    from a(2) have "q \<in> set (p # ps)" by simp
    from Cons.prems(3)[OF a(1) this a(3)] show "I (w\<lparr>plans := st, calls := tr\<rparr>)" .
  qed
qed

lemma reconcileCatalog_services_Ok_induct:
  assumes "reconcileCatalog_services env w b ss = (Ok u, w')" and "I w"
    and off: "\<And>w s ob st tr. \<lbrakk>I w; s \<in> set ss;
            CreateOrPatch env CFServiceOffering (offerings w) (calls w)
              (fresh zero_service_offering (offering_key env b s)) (serviceOffering_mutate env b s)
              = (Ok ob, st, tr)\<rbrakk>
          \<Longrightarrow> I (w\<lparr>offerings := st, calls := tr\<rparr>)"
    and pl: "\<And>w s p so ob st tr. \<lbrakk>I w; s \<in> set ss; p \<in> set (svc_plans s); offering_of env b s so;
            CreateOrPatch env CFServicePlan (plans w) (calls w)
              (fresh zero_service_plan (plan_key env b p)) (servicePlan_mutate env so p) = (Ok ob, st, tr)\<rbrakk>
          \<Longrightarrow> I (w\<lparr>plans := st, calls := tr\<rparr>)"
  shows "I w'"
  using assms(1,2) off pl
proof (induction ss arbitrary: w)
  case Nil
  then show ?case by simp
next
  case (Cons s ss)
  from Cons.prems(1) obtain u1 w1 where
    s: "reconcileCatalogService env w b s = (Ok u1, w1)"
    and rest: "reconcileCatalog_services env w1 b ss = (Ok u, w')"
    by (auto split: prod.splits res.splits)
  from s obtain ob st tr where
    cop: "CreateOrPatch env CFServiceOffering (offerings w) (calls w)
            (fresh zero_service_offering (offering_key env b s)) (serviceOffering_mutate env b s) = (Ok ob, st, tr)"
    and loop: "reconcileCatalogService_plans env (w\<lparr>offerings := st, calls := tr\<rparr>) ob s (svc_plans s)
                 = (Ok u1, w1)"
    unfolding reconcileCatalogService_unfold by (auto split: prod.splits res.splits)
  have 0: "I (w\<lparr>offerings := st, calls := tr\<rparr>)"
    using Cons.prems(2) cop by (intro Cons.prems(3)) simp_all
  note m = CreateOrPatch_fresh_Ok(1)[OF cop] and ko = CreateOrPatch_fresh_Ok(2)[OF cop]
  have of: "offering_of env b s ob"
    using ko by (simp add: offering_of_def serviceOffering_mutate_Ok(2)[OF m] upd_def label_def)
  have 1: "I w1"
    using loop 0 of
  proof (rule plans_loop_Ok_induct)
    fix w p ob' st tr
    assume a: "I w" "p \<in> set (svc_plans s)"
      "CreateOrPatch env CFServicePlan (plans w) (calls w)
         (fresh zero_service_plan (plan_key env b p)) (servicePlan_mutate env ob p) = (Ok ob', st, tr)"
    have "s \<in> set (s # ss)" by simp
    from Cons.prems(4)[OF a(1) this a(2) of a(3)] show "I (w\<lparr>plans := st, calls := tr\<rparr>)" .
  qed
  show ?case
  proof (rule Cons.IH[OF rest 1])
    fix w t ob st tr
    assume a: "I w" "t \<in> set ss"
      "CreateOrPatch env CFServiceOffering (offerings w) (calls w)
         (fresh zero_service_offering (offering_key env b t)) (serviceOffering_mutate env b t)
         = (Ok ob, st, tr)"
    from a(2) have "t \<in> set (s # ss)" by simp
    from Cons.prems(3)[OF a(1) this a(3)] show "I (w\<lparr>offerings := st, calls := tr\<rparr>)" .
  next
    fix w t p so ob st tr
    assume a: "I w" "t \<in> set ss" "p \<in> set (svc_plans t)" "offering_of env b t so"
      "CreateOrPatch env CFServicePlan (plans w) (calls w)
         (fresh zero_service_plan (plan_key env b p)) (servicePlan_mutate env so p) = (Ok ob, st, tr)"
    from a(2) have "t \<in> set (s # ss)" by simp
    from Cons.prems(4)[OF a(1) this a(3) a(4) a(5)] show "I (w\<lparr>plans := st, calls := tr\<rparr>)" .
  qed
qed




lemma walk_no_create:
  assumes "reconcileCatalog_services env w b ss = (Ok u, w')" and "keys_present env b ss w"
  shows "\<exists>cs. calls w' = calls w @ cs \<and> (\<forall>c\<in>set cs. \<not> is_create c)"
proof -
  let ?I = "\<lambda>v. keys_present env b ss v \<and> (\<exists>cs. calls v = calls w @ cs \<and> (\<forall>c\<in>set cs. \<not> is_create c))"
  have "?I w'"
    using assms(1)
  proof (rule reconcileCatalog_services_Ok_induct)
    show "?I w" using assms(2) by simp
  next
    fix v s ob st tr
    assume I: "?I v" and s: "s \<in> set ss"
      and cop: "CreateOrPatch env CFServiceOffering (offerings v) (calls v)
         (fresh zero_service_offering (offering_key env b s)) (serviceOffering_mutate env b s)
         = (Ok ob, st, tr)"
    from I s obtain cur where cur: "offerings v (offering_key env b s) = Some cur"
      by (auto simp: keys_present_def)
    from I obtain cs where cs: "calls v = calls w @ cs" "\<forall>c\<in>set cs. \<not> is_create c" by blast
    have "dom (offerings v) \<subseteq> dom st"
      using CreateOrPatch_fresh_Ok(3)[OF cop] by auto
    with I have 1: "keys_present env b ss (v\<lparr>offerings := st, calls := tr\<rparr>)"
      unfolding keys_present_def by simp blast
    have "tr = calls w @ (cs @ ApiGet CFServiceOffering (offering_key env b s) #
             (if ob = cur then [] else [ApiPatch CFServiceOffering (offering_key env b s)]))"
      using CreateOrPatch_fresh_Ok_calls[OF cop] cur cs(1) by simp
    moreover have "\<forall>c\<in>set (cs @ ApiGet CFServiceOffering (offering_key env b s) #
             (if ob = cur then [] else [ApiPatch CFServiceOffering (offering_key env b s)])). \<not> is_create c"
      using cs(2) by simp
    ultimately have "\<exists>cs'. tr = calls w @ cs' \<and> (\<forall>c\<in>set cs'. \<not> is_create c)" by blast
    then show "?I (v\<lparr>offerings := st, calls := tr\<rparr>)"
      using 1 by simp
  next
    fix v s p so ob st tr
    assume I: "?I v" and s: "s \<in> set ss" "p \<in> set (svc_plans s)"
      and cop: "CreateOrPatch env CFServicePlan (plans v) (calls v)
         (fresh zero_service_plan (plan_key env b p)) (servicePlan_mutate env so p) = (Ok ob, st, tr)"
    from s have "plan_key env b p \<in> plan_key env b ` (\<Union>s\<in>set ss. set (svc_plans s))" by blast
    with I obtain cur where cur: "plans v (plan_key env b p) = Some cur"
      unfolding keys_present_def by blast
    from I obtain cs where cs: "calls v = calls w @ cs" "\<forall>c\<in>set cs. \<not> is_create c" by blast
    have "dom (plans v) \<subseteq> dom st"
      using CreateOrPatch_fresh_Ok(3)[OF cop] by auto
    with I have 1: "keys_present env b ss (v\<lparr>plans := st, calls := tr\<rparr>)"
      unfolding keys_present_def by simp blast
    have "tr = calls w @ (cs @ ApiGet CFServicePlan (plan_key env b p) #
             (if ob = cur then [] else [ApiPatch CFServicePlan (plan_key env b p)]))"
      using CreateOrPatch_fresh_Ok_calls[OF cop] cur cs(1) by simp
    moreover have "\<forall>c\<in>set (cs @ ApiGet CFServicePlan (plan_key env b p) #
             (if ob = cur then [] else [ApiPatch CFServicePlan (plan_key env b p)])). \<not> is_create c"
      using cs(2) by simp
    ultimately have "\<exists>cs'. tr = calls w @ cs' \<and> (\<forall>c\<in>set cs'. \<not> is_create c)" by blast
    then show "?I (v\<lparr>plans := st, calls := tr\<rparr>)"
      using 1 by simp
  qed
  then show ?thesis by blast
qed

lemma walk_no_write:
  assumes run: "reconcileCatalog_services env w b ss = (Ok u, w')"
    and O: "offerings w = upserts zero_service_offering (offering_entries env b ss) O0"
    and P: "plans w = upserts zero_service_plan (plan_entries env b ss) P0"
    and dO: "distinct (map (offering_key env b) ss)"
    and dP: "distinct (map (plan_key env b) (concat (map svc_plans ss)))"
  shows "\<exists>cs. calls w' = calls w @ cs \<and> (\<forall>c\<in>set cs. \<not> is_write c)"
proof -
  let ?I = "\<lambda>v. offerings v = offerings w \<and> plans v = plans w
              \<and> (\<exists>cs. calls v = calls w @ cs \<and> (\<forall>c\<in>set cs. \<not> is_write c))"
  have dO': "distinct (map fst (offering_entries env b ss))"
    using dO by (simp only: map_fst_offering_entries)
  have dP': "distinct (map fst (plan_entries env b ss))"
    using dP by (simp only: map_fst_plan_entries)
  have "?I w'"
    using run
  proof (rule reconcileCatalog_services_Ok_induct)
    show "?I w" by simp
  next
    fix v s ob st tr
    assume I: "?I v" and s: "s \<in> set ss"
      and cop: "CreateOrPatch env CFServiceOffering (offerings v) (calls v)
         (fresh zero_service_offering (offering_key env b s)) (serviceOffering_mutate env b s)
         = (Ok ob, st, tr)"
    have "(offering_key env b s, [RelServiceBrokerLabel env \<mapsto> b_name b], offering_spec env s)
            \<in> set (offering_entries env b ss)"
      using s by (auto simp: offering_entries_def offering_entry_def)
    from upserts_fixed[OF dO' this, of zero_service_offering O0]
    obtain cur where "upserts zero_service_offering (offering_entries env b ss) O0
                        (offering_key env b s) = Some cur"
      and fx: "upd [RelServiceBrokerLabel env \<mapsto> b_name b] (offering_spec env s) cur = cur"
      by blast
    then have cur: "offerings v (offering_key env b s) = Some cur"
      using I O by simp
    have "serviceOffering_mutate env b s cur = Ok ob"
      using CreateOrPatch_fresh_Ok(1)[OF cop] cur by (simp add: base_def)
    from serviceOffering_mutate_Ok(2)[OF this] fx have ob: "ob = cur" by simp
    have st: "st = offerings v"
      using CreateOrPatch_fresh_Ok(3)[OF cop] cur ob by (simp add: fun_upd_idem)
    have tr: "tr = calls v @ [ApiGet CFServiceOffering (offering_key env b s)]"
      using CreateOrPatch_fresh_Ok_calls[OF cop] cur ob by simp
    from I obtain cs where cs: "calls v = calls w @ cs" "\<forall>c\<in>set cs. \<not> is_write c" by blast
    have "tr = calls w @ (cs @ [ApiGet CFServiceOffering (offering_key env b s)])
        \<and> (\<forall>c\<in>set (cs @ [ApiGet CFServiceOffering (offering_key env b s)]). \<not> is_write c)"
      using tr cs by simp
    then have "\<exists>cs'. tr = calls w @ cs' \<and> (\<forall>c\<in>set cs'. \<not> is_write c)" by blast
    then show "?I (v\<lparr>offerings := st, calls := tr\<rparr>)"
      using I st by simp
  next
    fix v s p so ob st tr
    assume I: "?I v" and s: "s \<in> set ss" "p \<in> set (svc_plans s)" and of: "offering_of env b s so"
      and cop: "CreateOrPatch env CFServicePlan (plans v) (calls v)
         (fresh zero_service_plan (plan_key env b p)) (servicePlan_mutate env so p) = (Ok ob, st, tr)"
    have "(plan_key env b p, fst (snd (plan_entry env b s p)), plan_spec env p)
            \<in> set (plan_entries env b ss)"
      using s by (auto simp: plan_entries_def plan_entry_def)
    from upserts_fixed[OF dP' this, of zero_service_plan P0]
    obtain cur where "upserts zero_service_plan (plan_entries env b ss) P0 (plan_key env b p) = Some cur"
      and fx: "upd (fst (snd (plan_entry env b s p))) (plan_spec env p) cur = cur"
      by blast
    then have cur: "plans v (plan_key env b p) = Some cur"
      using I P by simp
    have "servicePlan_mutate env so p cur = Ok ob"
      using CreateOrPatch_fresh_Ok(1)[OF cop] cur by (simp add: base_def)
    from servicePlan_mutate_Ok[OF this of] fx have ob: "ob = cur" by simp
    have st: "st = plans v"
      using CreateOrPatch_fresh_Ok(3)[OF cop] cur ob by (simp add: fun_upd_idem)
    have tr: "tr = calls v @ [ApiGet CFServicePlan (plan_key env b p)]"
      using CreateOrPatch_fresh_Ok_calls[OF cop] cur ob by simp
    from I obtain cs where cs: "calls v = calls w @ cs" "\<forall>c\<in>set cs. \<not> is_write c" by blast
    have "tr = calls w @ (cs @ [ApiGet CFServicePlan (plan_key env b p)])
        \<and> (\<forall>c\<in>set (cs @ [ApiGet CFServicePlan (plan_key env b p)]). \<not> is_write c)"
      using tr cs by simp
    then have "\<exists>cs'. tr = calls w @ cs' \<and> (\<forall>c\<in>set cs'. \<not> is_write c)" by blast
    then show "?I (v\<lparr>plans := st, calls := tr\<rparr>)"
      using I st by simp
  qed
  then show ?thesis by blast
qed

subsection \<open>Conditions and the secret read\<close>

lemma FindStatusCondition_SetStatusCondition:
  "\<exists>c. FindStatusCondition (SetStatusCondition env cs new) (cond_type new) = Some c
        \<and> cond_status c = cond_status new \<and> cond_reason c = cond_reason new
        \<and> cond_message c = cond_message new"
  by (induction cs) auto

lemma SetStatusCondition_count:
  "length (filter (\<lambda>c. cond_type c = cond_type new) (SetStatusCondition env cs new))
     = max 1 (length (filter (\<lambda>c. cond_type c = cond_type new) cs))"
  by (induction cs) auto

lemma k8s_Get_Inr:
  "k8s_Get env k st tr ky = (Inr ob, tr') \<longleftrightarrow>
     api_fault env tr (ApiGet k ky) = None \<and> st ky = Some ob \<and> tr' = tr @ [ApiGet k ky]"
  by (auto simp: k8s_Get_def split: option.splits)

lemma validateCredentials_rejects:
  assumes "(\<exists>e. json_Unmarshal env
                   (case sec_data sec (CredentialsSecretKey env) of None \<Rightarrow> [] | Some bs \<Rightarrow> bs) = Inl e)
         \<or> (\<exists>creds. json_Unmarshal env
                   (case sec_data sec (CredentialsSecretKey env) of None \<Rightarrow> [] | Some bs \<Rightarrow> bs) = Inr creds
               \<and> (creds (UsernameCredentialsKey env) = None \<or> creds (PasswordCredentialsKey env) = None))"
  shows "\<exists>verr. validateCredentials env sec = Some verr"
  using assms by (auto simp: validateCredentials_def)

lemmas example_defs = example_env_def example_broker_def example_secret_def example_world_def
  example_catalog_def example_service_def example_plan_def example_offering_def quote_def
  incomplete_secret_def incomplete_world_def secretless_world_def plain_service_def
  three_services_def refusing_env_def duplicate_ids_def unlistable_env_def
  undocumented_service_def plain_plan_def three_plans_def plan_refusing_env_def

lemmas model_defs = k8s_Get_def k8s_Create_def k8s_Patch_def k8s_List_def mutate_def
  CreateOrPatch_def obj_key_def reconcileCatalogPlan_def servicePlan_mutate_def
  serviceOffering_mutate_def reconcileCatalogService_def reconcileCatalog_def
  toSpecServiceOffering_def label_def validateCredentials_def ReconcileResource_body_def
  ReconcileResource_def NewReadyConditionBuilder_def WithReason_def WithError_def Ready_def
  Build_def zero_service_offering_def zero_service_plan_def zero_schemas_def empty_result_def
  StatusConditionReady_def Second_def secretToServiceBroker_def
  IndexServiceBrokerCredentialsSecretName_def

subsection \<open>A failing upsert stops the walk\<close>

lemma plans_loop_append:
  "reconcileCatalogService_plans env w so s (xs @ ys) =
     (case reconcileCatalogService_plans env w so s xs of
        (Ok u, w') \<Rightarrow> reconcileCatalogService_plans env w' so s ys
      | (Err e, w') \<Rightarrow> (Err e, w')
      | (Panic, w') \<Rightarrow> (Panic, w'))"
  by (induction xs arbitrary: w) (auto split: prod.splits res.splits)

lemma reconcileCatalog_services_append:
  "reconcileCatalog_services env w b (xs @ ys) =
     (case reconcileCatalog_services env w b xs of
        (Ok u, w') \<Rightarrow> reconcileCatalog_services env w' b ys
      | (Err e, w') \<Rightarrow> (Err e, w')
      | (Panic, w') \<Rightarrow> (Panic, w'))"
  by (induction xs arbitrary: w) (auto split: prod.splits res.splits)

lemma world_calls_only: "w\<lparr>offerings := offerings w, calls := tr\<rparr> = w\<lparr>calls := tr\<rparr>"
  "w\<lparr>plans := plans w, calls := tr\<rparr> = w\<lparr>calls := tr\<rparr>"
  by simp_all

text \<open>A failing offering upsert makes the service fail, with the cluster as it was.\<close>

lemma reconcileCatalogService_offering_fails:
  assumes "failed_upsert env b w (s # rest) (AtOffering 0) = Some (cause, tr)"
  shows "reconcileCatalogService env w b s = (Err cause, w\<lparr>calls := tr\<rparr>)
       \<and> (\<exists>cs. tr = calls w @ cs \<and> one_upsert cs)"
proof -
  obtain r st tr0 where
    cop: "CreateOrPatch env CFServiceOffering (offerings w) (calls w)
            (fresh zero_service_offering (offering_key env b s)) (serviceOffering_mutate env b s) = (r, st, tr0)"
    by (metis prod_cases3)
  from assms cop obtain err where r: "r = Err err" and tr: "tr0 = tr"
    and cause: "cause = WrapError (''failed to reconcile service offering ''
                  @ fmt_q env (svc_id s) @ '' : '' @ error_msg err) err"
    by (auto simp: failed_upsert_def fresh_def offering_key_def Let_def split: res.splits)
  have "\<forall>x. r \<noteq> Ok x" using r by simp
  from CreateOrPatch_not_Ok[OF cop this] have st: "st = offerings w" .
  show ?thesis
    using cop r tr cause st CreateOrPatch_one_upsert[OF cop]
    by (simp add: reconcileCatalogService_unfold world_calls_only)
qed

text \<open>A failing plan upsert, after the plans before it, makes the plan loop fail there.\<close>

lemma plans_loop_plan_fails:
  assumes before: "reconcileCatalogService_plans env w so s (take j ps) = (Ok (), w1)"
    and j: "j < length ps"
    and cop: "CreateOrPatch env CFServicePlan (plans w1) (calls w1)
                \<lparr>obj_name = NamespacedUUID env (label (obj_labels so) (RelServiceBrokerLabel env))
                              (plan_id (ps ! j)),
                 obj_namespace = obj_namespace so, obj_labels = Map.empty,
                 obj_spec = zero_service_plan\<rparr>
                (servicePlan_mutate env so (ps ! j)) = (Err err, st, tr)"
  shows "reconcileCatalogService_plans env w so s ps =
           (Err (WrapError (''failed to reconcile service plan '' @ fmt_q env (plan_id (ps ! j))
                   @ '' for service offering '' @ fmt_q env (svc_id s)
                   @ '': '' @ error_msg err) err), w1\<lparr>calls := tr\<rparr>)"
proof -
  have "\<forall>x. Err err \<noteq> Ok x" by simp
  from CreateOrPatch_not_Ok[OF cop this] have st: "st = plans w1" .
  have p: "reconcileCatalogPlan env w1 so (ps ! j) = (Err err, w1\<lparr>calls := tr\<rparr>)"
    using cop st by (simp add: reconcileCatalogPlan_def world_calls_only)
  have ps: "ps = take j ps @ ps ! j # drop (Suc j) ps"
    using j by (simp add: id_take_nth_drop)
  show ?thesis
    by (subst ps, subst plans_loop_append) (simp add: before p)
qed

lemma reconcileCatalogService_plan_fails:
  assumes before: "reconcileCatalogService env w b (s\<lparr>svc_plans := take j (svc_plans s)\<rparr>) = (Ok (), w1)"
    and j: "j < length (svc_plans s)"
    and fails: "failed_upsert env b w1 (s # rest) (AtPlan 0 j) = Some (cause, tr)"
  shows "reconcileCatalogService env w b s = (Err cause, w1\<lparr>calls := tr\<rparr>)
       \<and> (\<exists>cs. tr = calls w1 @ cs \<and> one_upsert cs)"
proof -
  let ?s = "s\<lparr>svc_plans := take j (svc_plans s)\<rparr>"
  have m: "serviceOffering_mutate env b ?s = serviceOffering_mutate env b s"
    by (rule ext) (simp add: serviceOffering_mutate_def toSpecServiceOffering_plans)
  have k: "offering_key env b ?s = offering_key env b s" by (simp add: offering_key_def)
  from before obtain ob st0 tr0 where
    cop0: "CreateOrPatch env CFServiceOffering (offerings w) (calls w)
            (fresh zero_service_offering (offering_key env b s)) (serviceOffering_mutate env b s)
            = (Ok ob, st0, tr0)"
    and loop0: "reconcileCatalogService_plans env (w\<lparr>offerings := st0, calls := tr0\<rparr>) ob ?s
                  (take j (svc_plans s)) = (Ok (), w1)"
    unfolding reconcileCatalogService_unfold m k by (auto split: prod.splits res.splits)
  have loop: "reconcileCatalogService_plans env (w\<lparr>offerings := st0, calls := tr0\<rparr>) ob s
                  (take j (svc_plans s)) = (Ok (), w1)"
    using loop0 plans_loop_svc[of ?s s env _ ob "take j (svc_plans s)"] by simp
  note ko = CreateOrPatch_fresh_Ok(2)[OF cop0] and st0 = CreateOrPatch_fresh_Ok(3)[OF cop0]
  note m0 = CreateOrPatch_fresh_Ok(1)[OF cop0]
  have of: "offering_of env b s ob"
    using ko by (simp add: offering_of_def serviceOffering_mutate_Ok(2)[OF m0] upd_def label_def)
  have "offerings w1 = st0" using plans_loop_Ok[OF loop of] by simp
  then have so: "offerings w1 (b_namespace b, NamespacedUUID env (b_name b) (svc_id s)) = Some ob"
    using st0 by (simp add: offering_key_def)
  obtain r st tr1 where
    cop: "CreateOrPatch env CFServicePlan (plans w1) (calls w1)
                \<lparr>obj_name = NamespacedUUID env (label (obj_labels ob) (RelServiceBrokerLabel env))
                              (plan_id (svc_plans s ! j)),
                 obj_namespace = obj_namespace ob, obj_labels = Map.empty,
                 obj_spec = zero_service_plan\<rparr>
                (servicePlan_mutate env ob (svc_plans s ! j)) = (r, st, tr1)"
    by (metis prod_cases3)
  from fails so cop obtain err where r: "r = Err err" and tr: "tr1 = tr"
    and cause: "cause = WrapError (''failed to reconcile service plan '' @ fmt_q env (plan_id (svc_plans s ! j))
                   @ '' for service offering '' @ fmt_q env (svc_id s)
                   @ '': '' @ error_msg err) err"
    by (auto simp: failed_upsert_def Let_def split: res.splits)
  note l = plans_loop_plan_fails[OF loop j cop[unfolded r tr]]
  have "reconcileCatalogService env w b s = (Err cause, w1\<lparr>calls := tr\<rparr>)"
    using cop0 l cause by (simp add: reconcileCatalogService_unfold)
  moreover have "\<exists>cs. tr = calls w1 @ cs \<and> one_upsert cs"
    using CreateOrPatch_one_upsert[OF cop] tr by simp
  ultimately show ?thesis by blast
qed

lemma failed_upsert_drop:
  "i < length ss \<Longrightarrow>
   failed_upsert env b w ss (AtOffering i) = failed_upsert env b w (ss ! i # rest) (AtOffering 0)"
  "i < length ss \<Longrightarrow>
   failed_upsert env b w ss (AtPlan i j) = failed_upsert env b w (ss ! i # rest) (AtPlan 0 j)"
  by (simp_all add: failed_upsert_def)

lemma reconcileCatalog_services_upsert_fails:
  assumes pos: "position_in pos ss"
    and before: "reconcileCatalog_services env w b (services_before pos ss) = (Ok (), w1)"
    and fails: "failed_upsert env b w1 ss pos = Some (cause, tr)"
  shows "reconcileCatalog_services env w b ss = (Err cause, w1\<lparr>calls := tr\<rparr>)
       \<and> (\<exists>cs. tr = calls w1 @ cs \<and> one_upsert cs)"
proof (cases pos)
  case (AtOffering i)
  then have i: "i < length ss" using pos by simp
  have ss: "ss = take i ss @ ss ! i # drop (Suc i) ss"
    using i by (simp add: id_take_nth_drop)
  have b: "reconcileCatalog_services env w b (take i ss) = (Ok (), w1)"
    using before AtOffering by simp
  have f: "failed_upsert env b w1 [ss ! i] (AtOffering 0) = Some (cause, tr)"
    using fails AtOffering failed_upsert_drop(1)[OF i, of env b w1 "[]"] by simp
  note s = reconcileCatalogService_offering_fails[OF f]
  have "reconcileCatalog_services env w b ss = (Err cause, w1\<lparr>calls := tr\<rparr>)"
    by (subst ss, subst reconcileCatalog_services_append) (simp add: b s)
  then show ?thesis using s by blast
next
  case (AtPlan i j)
  then have i: "i < length ss" and j: "j < length (svc_plans (ss ! i))" using pos by simp_all
  let ?s = "ss ! i"
  have ss: "ss = take i ss @ ?s # drop (Suc i) ss"
    using i by (simp add: id_take_nth_drop)
  from before AtPlan obtain w0 where
    b: "reconcileCatalog_services env w b (take i ss) = (Ok (), w0)"
    and t: "reconcileCatalogService env w0 b (?s\<lparr>svc_plans := take j (svc_plans ?s)\<rparr>) = (Ok (), w1)"
    by (auto simp: reconcileCatalog_services_append split: prod.splits res.splits)
  have f: "failed_upsert env b w1 [?s] (AtPlan 0 j) = Some (cause, tr)"
    using fails AtPlan failed_upsert_drop(2)[OF i, of env b w1 j "[]"] by simp
  note s = reconcileCatalogService_plan_fails[OF t j f]
  have "reconcileCatalog_services env w b ss = (Err cause, w1\<lparr>calls := tr\<rparr>)"
    by (subst ss, subst reconcileCatalog_services_append) (simp add: b s)
  then show ?thesis using s by blast
qed

section \<open>The claims\<close>

text \<open>
  C1. Every invocation of \<open>ReconcileResource\<close> that returns, on whichever path (secret
  missing, secret fetch failed, credentials invalid, catalog fetch failed, an upsert
  failed, success), sets exactly one condition on the broker: the broker returned is the
  one the body left, with \<open>SetStatusCondition\<close> applied once to the conditions the broker
  came with. The condition is of type Ready, and a broker that came with at most one
  Ready condition leaves with exactly one. Its status is True when the final value of
  the variable \<^verbatim>\<open>err\<close> (the value the deferred function reads) is nil, and then the
  returned error is nil too; otherwise it is False, with one of four fixed reasons. The
  code calls \<^verbatim>\<open>Ready()\<close> on the builder exactly on the path where \<^verbatim>\<open>err\<close> ends nil. (When
  the secret is not found the function returns a nil error while \<^verbatim>\<open>err\<close> holds the
  not-found error: the condition is False.)
\<close>

theorem exactly_one_ready_condition:
  assumes "ReconcileResource_body env b w = Exit result ret err bld b1 w1"
  shows "\<exists>cond b'. ReconcileResource env b w = Returned result ret b' w1
      \<and> b' = b1\<lparr>b_conditions := SetStatusCondition env (b_conditions b) cond\<rparr>
      \<and> cond_type cond = StatusConditionReady
      \<and> (length (filter (\<lambda>c. cond_type c = StatusConditionReady) (b_conditions b)) \<le> 1 \<longrightarrow>
           length (filter (\<lambda>c. cond_type c = StatusConditionReady) (b_conditions b')) = 1)
      \<and> (err = None \<longrightarrow> cond_status cond = ConditionTrue \<and> ret = None)
      \<and> (err \<noteq> None \<longrightarrow> cond_status cond = ConditionFalse
            \<and> cond_reason cond \<in> {''CredentialsSecretNotAvailable'', ''SecretInvalid'',
                                  ''GetCatalogFailed'', default_reason env})
      \<and> (rb_status bld = ConditionTrue \<longleftrightarrow> err = None)"
proof -
  let ?cond = "Build env (WithError err bld)"
  have c: "b_conditions b1 = b_conditions b"
    and r: "rb_reason bld \<in> {''CredentialsSecretNotAvailable'', ''SecretInvalid'',
                              ''GetCatalogFailed'', default_reason env}"
    and e: "err = None \<longrightarrow> ret = None"
    and s: "rb_status bld = ConditionTrue \<longleftrightarrow> err = None"
    using assms
    by (auto simp: ReconcileResource_body_def Let_def NewReadyConditionBuilder_def WithReason_def
          Ready_def split: prod.splits sum.splits option.splits if_splits res.splits)
  have "ReconcileResource env b w =
          Returned result ret (b1\<lparr>b_conditions := SetStatusCondition env (b_conditions b) ?cond\<rparr>) w1"
    using assms c by (simp add: ReconcileResource_def)
  moreover have t: "cond_type ?cond = StatusConditionReady" by (simp add: Build_def)
  moreover have "length (filter (\<lambda>c. cond_type c = StatusConditionReady) (b_conditions b)) \<le> 1 \<longrightarrow>
      length (filter (\<lambda>c. cond_type c = StatusConditionReady)
                (SetStatusCondition env (b_conditions b) ?cond)) = 1"
    using SetStatusCondition_count[of ?cond env "b_conditions b"] unfolding t by simp
  moreover have "err = None \<longrightarrow> cond_status ?cond = ConditionTrue"
    by (simp add: Build_def WithError_def)
  moreover have "err \<noteq> None \<longrightarrow> cond_status ?cond = ConditionFalse \<and> cond_reason ?cond = rb_reason bld"
    by (auto simp: Build_def WithError_def)
  ultimately show ?thesis using r e s
    by (intro exI[of _ ?cond]
          exI[of _ "b1\<lparr>b_conditions := SetStatusCondition env (b_conditions b) ?cond\<rparr>"]) simp
qed

text \<open>The successful run of the example broker sets Ready/True.\<close>

theorem exactly_one_ready_condition_witness:
  "\<exists>cond b1 b' w1.
       ReconcileResource example_env example_broker example_world = Returned empty_result None b' w1
     \<and> b' = b1\<lparr>b_conditions := SetStatusCondition example_env (b_conditions example_broker) cond\<rparr>
     \<and> cond_type cond = StatusConditionReady \<and> cond_status cond = ConditionTrue
     \<and> length (filter (\<lambda>c. cond_type c = StatusConditionReady) (b_conditions b')) = 1"
proof -
  have "\<exists>bld b1 w1. ReconcileResource_body example_env example_broker example_world =
          Exit empty_result None None bld b1 w1"
    by (simp add: example_defs model_defs Let_def)
  then obtain bld b1 w1 where
    "ReconcileResource_body example_env example_broker example_world = Exit empty_result None None bld b1 w1"
    by blast
  moreover have "length (filter (\<lambda>c. cond_type c = StatusConditionReady) (b_conditions example_broker)) \<le> 1"
    by (simp add: example_broker_def)
  ultimately show ?thesis
    using exactly_one_ready_condition[of example_env example_broker example_world
            empty_result None None bld b1 w1]
    by blast
qed

text \<open>
  C2. When, during the catalog walk of \<open>ReconcileResource\<close> (the secret was read, the
  credentials are valid and the catalog was fetched), every upsert before some entry of
  the catalog succeeds and the upsert of that entry, the offering of a service or one of
  its plans, fails, then the walk returns that failure as its error and
  \<open>ReconcileResource\<close> returns \<^verbatim>\<open>failed to reconcile catalog: <cause>\<close>. No later entry is
  processed: the cluster is the one the upserts before the entry left, with nothing but
  the calls of the failed upsert added to the trace. Nothing is rolled back: its
  offerings and plans are exactly those the earlier entries of the catalog upserted.
\<close>

theorem upsert_failure_aborts_walk:
  assumes sec: "secrets w (b_namespace b, b_credentials_name b) = Some sec"
    and nofault: "api_fault env (calls w) (ApiGet Secret (b_namespace b, b_credentials_name b)) = None"
    and valid: "validateCredentials env sec = None"
    and b2: "b2 = b\<lparr>b_observed_generation := b_generation b,
                    b_credentials_observed_version := sec_resource_version sec\<rparr>"
    and cat: "GetCatalog env b2 = Inr catalog"
    and w2: "w2 = w\<lparr>calls := calls w @ [ApiGet Secret (b_namespace b, b_credentials_name b),
                                         CatalogGet (b_name b)]\<rparr>"
    and pos: "position_in pos (cat_services catalog)"
    and before: "reconcileCatalog env w2 b2
                   (catalog\<lparr>cat_services := services_before pos (cat_services catalog)\<rparr>) = (Ok (), w1)"
    and fails: "failed_upsert env b2 w1 (cat_services catalog) pos = Some (cause, tr)"
  shows "reconcileCatalog env w2 b2 catalog = (Err cause, w1\<lparr>calls := tr\<rparr>)
       \<and> (\<exists>b'. ReconcileResource env b w =
                 Returned empty_result
                   (Some (PlainError (''failed to reconcile catalog: '' @ error_msg cause)))
                   b' (w1\<lparr>calls := tr\<rparr>))
       \<and> (\<exists>cs. tr = calls w1 @ cs \<and> one_upsert cs)
       \<and> offerings w1 = upserts zero_service_offering
                           (offering_entries env b2 (services_before pos (cat_services catalog)))
                           (offerings w)
       \<and> plans w1 = upserts zero_service_plan
                       (plan_entries env b2 (services_before pos (cat_services catalog)))
                       (plans w)"
proof -
  let ?ky = "(b_namespace b, b_credentials_name b)"
  from before have b: "reconcileCatalog_services env w2 b2 (services_before pos (cat_services catalog))
                         = (Ok (), w1)"
    by (simp add: reconcileCatalog_def)
  from reconcileCatalog_services_upsert_fails[OF pos b fails]
  have walk: "reconcileCatalog env w2 b2 catalog = (Err cause, w1\<lparr>calls := tr\<rparr>)"
    and one: "\<exists>cs. tr = calls w1 @ cs \<and> one_upsert cs"
    by (simp_all add: reconcileCatalog_def)
  have get: "k8s_Get env Secret (secrets w) (calls w) ?ky = (Inr sec, calls w @ [ApiGet Secret ?ky])"
    using sec nofault by (simp add: k8s_Get_Inr)
  have ret: "\<exists>b'. ReconcileResource env b w =
                 Returned empty_result
                   (Some (PlainError (''failed to reconcile catalog: '' @ error_msg cause)))
                   b' (w1\<lparr>calls := tr\<rparr>)"
    using get valid cat walk unfolding b2 w2
    by (simp add: ReconcileResource_def ReconcileResource_body_def Let_def)
  have st: "offerings w1 = upserts zero_service_offering
                           (offering_entries env b2 (services_before pos (cat_services catalog)))
                           (offerings w)"
    "plans w1 = upserts zero_service_plan
                       (plan_entries env b2 (services_before pos (cat_services catalog)))
                       (plans w)"
    using reconcileCatalog_services_Ok[OF b] by (simp_all add: w2)
  show ?thesis using walk ret one st by blast
qed

text \<open>Three offerings, the API server refuses to create the second: the first stays, the
  third is never created. Three plans of one service, the second refused: the offering
  and the first plan stay, the third plan is never created.\<close>

theorem upsert_failure_aborts_walk_witness:
  \<open>(\<exists>b' w'. ReconcileResource refusing_env example_broker example_world =
       Returned empty_result
         (Some (PlainError ''failed to reconcile catalog: failed to reconcile service offering "service-2" : admission denied''))
         b' w'
     \<and> offerings w' (''cf'', ''my-broker.service-1'') \<noteq> None
     \<and> offerings w' (''cf'', ''my-broker.service-2'') = None
     \<and> offerings w' (''cf'', ''my-broker.service-3'') = None)
 \<and> (\<exists>b' w'. ReconcileResource plan_refusing_env example_broker example_world =
       Returned empty_result
         (Some (PlainError ''failed to reconcile catalog: failed to reconcile service plan "plan-2" for service offering "service-1": admission denied''))
         b' w'
     \<and> offerings w' (''cf'', ''my-broker.service-1'') \<noteq> None
     \<and> plans w' (''cf'', ''my-broker.plan-1'') \<noteq> None
     \<and> plans w' (''cf'', ''my-broker.plan-2'') = None
     \<and> plans w' (''cf'', ''my-broker.plan-3'') = None)\<close>
proof -
  let ?b2 = "example_broker\<lparr>b_observed_generation := b_generation example_broker,
                b_credentials_observed_version := sec_resource_version example_secret\<rparr>"
  let ?w2 = "example_world\<lparr>calls := calls example_world @
                [ApiGet Secret (b_namespace example_broker, b_credentials_name example_broker),
                 CatalogGet (b_name example_broker)]\<rparr>"
  have 1: "secrets example_world (b_namespace example_broker, b_credentials_name example_broker)
             = Some example_secret"
    by (simp add: example_defs)
  let ?cause = "WrapError (''failed to reconcile service offering '' @ quote ''service-2''
                  @ '' : admission denied'') (StatusError OtherReason ''admission denied'')"
  let ?pos = "AtOffering 1"
  let ?before = "reconcileCatalog refusing_env ?w2 ?b2
        (three_services\<lparr>cat_services := services_before ?pos (cat_services three_services)\<rparr>)"
  let ?w1 = "snd ?before"
  have 2: "api_fault refusing_env (calls example_world)
             (ApiGet Secret (b_namespace example_broker, b_credentials_name example_broker)) = None"
    by (simp add: example_defs)
  have 3: "validateCredentials refusing_env example_secret = None"
    by (simp add: example_defs validateCredentials_def)
  have 4: "GetCatalog refusing_env ?b2 = Inr three_services"
    by (simp add: refusing_env_def)
  have 5: "position_in ?pos (cat_services three_services)"
    by (simp add: three_services_def)
  have "fst ?before = Ok ()"
    by (simp add: example_defs model_defs Let_def)
  then have 6: "?before = (Ok (), ?w1)"
    by (metis prod.collapse)
  have "\<exists>tr. failed_upsert refusing_env ?b2 ?w1 (cat_services three_services) ?pos = Some (?cause, tr)"
    by (simp add: failed_upsert_def example_defs model_defs Let_def)
  then obtain tr where
    7: "failed_upsert refusing_env ?b2 ?w1 (cat_services three_services) ?pos = Some (?cause, tr)"
    by blast
  have 8: "offerings ?w1 (''cf'', ''my-broker.service-1'') \<noteq> None"
    "offerings ?w1 (''cf'', ''my-broker.service-2'') = None"
    "offerings ?w1 (''cf'', ''my-broker.service-3'') = None"
    by (simp_all add: example_defs model_defs Let_def)
  let ?cause' = "WrapError (''failed to reconcile service plan '' @ quote ''plan-2''
                  @ '' for service offering '' @ quote ''service-1'' @ '': admission denied'')
                  (StatusError OtherReason ''admission denied'')"
  let ?pos' = "AtPlan 0 1"
  let ?before' = "reconcileCatalog plan_refusing_env ?w2 ?b2
        (three_plans\<lparr>cat_services := services_before ?pos' (cat_services three_plans)\<rparr>)"
  let ?w1' = "snd ?before'"
  have p2: "api_fault plan_refusing_env (calls example_world)
             (ApiGet Secret (b_namespace example_broker, b_credentials_name example_broker)) = None"
    by (simp add: example_defs)
  have p3: "validateCredentials plan_refusing_env example_secret = None"
    by (simp add: example_defs validateCredentials_def)
  have p4: "GetCatalog plan_refusing_env ?b2 = Inr three_plans"
    by (simp add: plan_refusing_env_def)
  have p5: "position_in ?pos' (cat_services three_plans)"
    by (simp add: three_plans_def)
  have "fst ?before' = Ok ()"
    by (simp add: example_defs model_defs Let_def)
  then have p6: "?before' = (Ok (), ?w1')"
    by (metis prod.collapse)
  have "\<exists>tr. failed_upsert plan_refusing_env ?b2 ?w1' (cat_services three_plans) ?pos' = Some (?cause', tr)"
    by (simp add: failed_upsert_def example_defs model_defs Let_def)
  then obtain tr' where
    p7: "failed_upsert plan_refusing_env ?b2 ?w1' (cat_services three_plans) ?pos' = Some (?cause', tr')"
    by blast
  have p8: "offerings ?w1' (''cf'', ''my-broker.service-1'') \<noteq> None"
    "plans ?w1' (''cf'', ''my-broker.plan-1'') \<noteq> None"
    "plans ?w1' (''cf'', ''my-broker.plan-2'') = None"
    "plans ?w1' (''cf'', ''my-broker.plan-3'') = None"
    by (simp_all add: example_defs model_defs Let_def)
  from upsert_failure_aborts_walk[OF 1 2 3 refl 4 refl 5 6 7]
  obtain b' where
    "ReconcileResource refusing_env example_broker example_world =
       Returned empty_result
         (Some (PlainError (''failed to reconcile catalog: '' @ error_msg ?cause))) b' (?w1\<lparr>calls := tr\<rparr>)"
    by blast
  moreover from upsert_failure_aborts_walk[OF 1 p2 p3 refl p4 refl p5 p6 p7]
  obtain b'' where
    "ReconcileResource plan_refusing_env example_broker example_world =
       Returned empty_result
         (Some (PlainError (''failed to reconcile catalog: '' @ error_msg ?cause'))) b'' (?w1'\<lparr>calls := tr'\<rparr>)"
    by blast
  ultimately show ?thesis using 8 p8
    by (simp add: quote_def)
qed



text \<open>
  C4, as stated, fails for a catalog that lists one service id twice. Both walks
  succeed; the first leaves the shared offering with the name of the second entry; the
  second walk patches that object twice, and its first patch writes the name of the first
  entry, which differs from what the first walk left.
\<close>

theorem duplicate_ids_rewritten:
  "fst (reconcileCatalog example_env example_world example_broker duplicate_ids) = Ok ()
   \<and> fst (reconcileCatalog example_env after_duplicate_ids example_broker duplicate_ids) = Ok ()
   \<and> map_option (so_name \<circ> obj_spec) (offerings after_duplicate_ids (''cf'', ''my-broker.service-1''))
       = Some ''second''
   \<and> drop (length (calls after_duplicate_ids))
        (calls (snd (reconcileCatalog example_env after_duplicate_ids example_broker duplicate_ids)))
       = [ApiGet CFServiceOffering (''cf'', ''my-broker.service-1''),
          ApiPatch CFServiceOffering (''cf'', ''my-broker.service-1''),
          ApiGet CFServiceOffering (''cf'', ''my-broker.service-1''),
          ApiPatch CFServiceOffering (''cf'', ''my-broker.service-1'')]
   \<and> map_option (so_name \<circ> obj_spec)
        (offerings (snd (reconcileCatalogService example_env after_duplicate_ids example_broker
                           (plain_service ''service-1'' ''first'')))
           (''cf'', ''my-broker.service-1''))
       = Some ''first''"
  by (simp add: after_duplicate_ids_def example_defs model_defs Let_def)

text \<open>
  C4, amended. When two walks in a row over the same catalog both succeed, the second
  leaves every offering and plan exactly as the first left it and creates no object;
  when moreover the names derived from the service ids are pairwise distinct, and those
  derived from the plan ids too, the second walk sends no write at all.
\<close>

theorem reconcileCatalog_twice:
  assumes run1: "reconcileCatalog env w b catalog = (Ok (), w1)"
    and run2: "reconcileCatalog env w1 b catalog = (Ok (), w2)"
  shows "offerings w2 = offerings w1 \<and> plans w2 = plans w1
       \<and> (\<exists>cs. calls w2 = calls w1 @ cs
             \<and> (\<forall>c\<in>set cs. \<not> is_create c)
             \<and> (distinct (map (offering_key env b) (cat_services catalog))
                 \<and> distinct (map (plan_key env b) (concat (map svc_plans (cat_services catalog))))
                 \<longrightarrow> (\<forall>c\<in>set cs. \<not> is_write c)))"
proof -
  let ?ss = "cat_services catalog"
  let ?oe = "offering_entries env b ?ss" and ?pe = "plan_entries env b ?ss"
  from run1 have r1: "reconcileCatalog_services env w b ?ss = (Ok (), w1)"
    by (simp add: reconcileCatalog_def)
  from run2 have r2: "reconcileCatalog_services env w1 b ?ss = (Ok (), w2)"
    by (simp add: reconcileCatalog_def)
  note c1 = reconcileCatalog_services_Ok[OF r1] and c2 = reconcileCatalog_services_Ok[OF r2]
  have O: "offerings w1 = upserts zero_service_offering ?oe (offerings w)"
    and P: "plans w1 = upserts zero_service_plan ?pe (plans w)"
    using c1 by simp_all
  have eq: "offerings w2 = offerings w1" "plans w2 = plans w1"
    using c2 O P by (simp_all add: upserts_idem)
  have "set (map fst ?oe) = set (map (offering_key env b) ?ss)"
    by (simp only: map_fst_offering_entries)
  then have ko: "fst ` set ?oe = offering_key env b ` set ?ss" by simp
  have "set (map fst ?pe) = set (map (plan_key env b) (concat (map svc_plans ?ss)))"
    by (simp only: map_fst_plan_entries)
  then have kpl: "fst ` set ?pe = plan_key env b ` (\<Union>s\<in>set ?ss. set (svc_plans s))" by simp
  have kp: "keys_present env b ?ss w1"
    unfolding keys_present_def O P dom_upserts ko kpl by simp
  from walk_no_create[OF r2 kp] obtain cs where
    cs: "calls w2 = calls w1 @ cs" "\<forall>c\<in>set cs. \<not> is_create c" by blast
  have "\<forall>c\<in>set cs. \<not> is_write c"
    if "distinct (map (offering_key env b) ?ss)"
      and "distinct (map (plan_key env b) (concat (map svc_plans ?ss)))"
    using walk_no_write[OF r2 O P that] cs(1) by auto
  then show ?thesis using eq cs by blast
qed

text \<open>The example catalog, walked twice: same objects, and only reads in the second walk.\<close>

theorem reconcileCatalog_twice_witness:
  "offerings (snd (reconcileCatalog example_env
                (snd (reconcileCatalog example_env example_world example_broker example_catalog))
                example_broker example_catalog))
     = offerings (snd (reconcileCatalog example_env example_world example_broker example_catalog))
   \<and> plans (snd (reconcileCatalog example_env
                (snd (reconcileCatalog example_env example_world example_broker example_catalog))
                example_broker example_catalog))
     = plans (snd (reconcileCatalog example_env example_world example_broker example_catalog))
   \<and> (\<exists>cs. calls (snd (reconcileCatalog example_env
                (snd (reconcileCatalog example_env example_world example_broker example_catalog))
                example_broker example_catalog))
            = calls (snd (reconcileCatalog example_env example_world example_broker example_catalog)) @ cs
          \<and> (\<forall>c\<in>set cs. \<not> is_write c))"
proof -
  let ?w1 = "snd (reconcileCatalog example_env example_world example_broker example_catalog)"
  let ?w2 = "snd (reconcileCatalog example_env ?w1 example_broker example_catalog)"
  have "fst (reconcileCatalog example_env example_world example_broker example_catalog) = Ok ()"
    by (simp add: example_defs model_defs Let_def)
  then have run1: "reconcileCatalog example_env example_world example_broker example_catalog = (Ok (), ?w1)"
    by (metis prod.collapse)
  have "fst (reconcileCatalog example_env ?w1 example_broker example_catalog) = Ok ()"
    by (simp add: example_defs model_defs Let_def)
  then have run2: "reconcileCatalog example_env ?w1 example_broker example_catalog = (Ok (), ?w2)"
    by (metis prod.collapse)
  have d: "distinct (map (offering_key example_env example_broker) (cat_services example_catalog))
         \<and> distinct (map (plan_key example_env example_broker)
                       (concat (map svc_plans (cat_services example_catalog))))"
    by (simp add: example_catalog_def example_service_def)
  from reconcileCatalog_twice[OF run1 run2] d show ?thesis
    by blast
qed

text \<open>
  C5. When the API server hands out the credentials secret and its payload under the
  credentials key does not decode, or decodes to an object without the username key or
  without the password key, \<open>ReconcileResource\<close> returns the error of
  \<open>validateCredentials\<close>, sets the Ready condition to False with reason
  \<^verbatim>\<open>SecretInvalid\<close>, and its only call was the read of the secret: the catalog client was
  not called.
\<close>

theorem invalid_credentials_rejected:
  assumes "secrets w (b_namespace b, b_credentials_name b) = Some sec"
    and "api_fault env (calls w) (ApiGet Secret (b_namespace b, b_credentials_name b)) = None"
    and "payload = (case sec_data sec (CredentialsSecretKey env) of None \<Rightarrow> [] | Some bs \<Rightarrow> bs)"
    and "(\<exists>e. json_Unmarshal env payload = Inl e)
       \<or> (\<exists>creds. json_Unmarshal env payload = Inr creds
             \<and> (creds (UsernameCredentialsKey env) = None \<or> creds (PasswordCredentialsKey env) = None))"
  shows "\<exists>verr b' c. validateCredentials env sec = Some verr
       \<and> ReconcileResource env b w =
           Returned empty_result (Some verr) b'
             (w\<lparr>calls := calls w @ [ApiGet Secret (b_namespace b, b_credentials_name b)]\<rparr>)
       \<and> FindStatusCondition (b_conditions b') StatusConditionReady = Some c
       \<and> cond_status c = ConditionFalse \<and> cond_reason c = ''SecretInvalid''"
proof -
  let ?ky = "(b_namespace b, b_credentials_name b)"
  have get: "k8s_Get env Secret (secrets w) (calls w) ?ky = (Inr sec, calls w @ [ApiGet Secret ?ky])"
    using assms(1,2) by (simp add: k8s_Get_Inr)
  from validateCredentials_rejects[of env sec] assms(3,4)
  obtain verr where verr: "validateCredentials env sec = Some verr" by blast
  let ?new = "Build env (WithError (Some verr) (WithReason ''SecretInvalid'' (NewReadyConditionBuilder env)))"
  have new: "cond_type ?new = StatusConditionReady" "cond_reason ?new = ''SecretInvalid''"
    "cond_status ?new = ConditionFalse"
    by (simp_all add: Build_def WithError_def WithReason_def)
  from FindStatusCondition_SetStatusCondition[of env "b_conditions b" ?new] new
  obtain c where c: "FindStatusCondition (SetStatusCondition env (b_conditions b) ?new) StatusConditionReady = Some c"
    "cond_reason c = ''SecretInvalid''" "cond_status c = ConditionFalse" by auto
  have "\<exists>b'. ReconcileResource env b w = Returned empty_result (Some verr) b' (w\<lparr>calls := calls w @ [ApiGet Secret ?ky]\<rparr>)
          \<and> b_conditions b' = SetStatusCondition env (b_conditions b) ?new"
    using get verr by (simp add: ReconcileResource_def ReconcileResource_body_def Let_def)
  then show ?thesis using verr c by auto
qed

text \<open>A secret with a username and no password.\<close>

theorem invalid_credentials_rejected_witness:
  "\<exists>verr b' c. validateCredentials example_env incomplete_secret = Some verr
     \<and> ReconcileResource example_env example_broker incomplete_world =
         Returned empty_result (Some verr) b'
           (incomplete_world\<lparr>calls := calls incomplete_world @ [ApiGet Secret (''cf'', ''my-broker-secret'')]\<rparr>)
     \<and> FindStatusCondition (b_conditions b') StatusConditionReady = Some c
     \<and> cond_status c = ConditionFalse \<and> cond_reason c = ''SecretInvalid''"
proof -
  have 1: "secrets incomplete_world (b_namespace example_broker, b_credentials_name example_broker)
             = Some incomplete_secret"
    by (simp add: example_defs)
  have 2: "api_fault example_env (calls incomplete_world)
             (ApiGet Secret (b_namespace example_broker, b_credentials_name example_broker)) = None"
    by (simp add: example_defs)
  have 3: "(\<exists>e. json_Unmarshal example_env
                   (case sec_data incomplete_secret (CredentialsSecretKey example_env) of
                      None \<Rightarrow> [] | Some bs \<Rightarrow> bs) = Inl e)
       \<or> (\<exists>creds. json_Unmarshal example_env
                   (case sec_data incomplete_secret (CredentialsSecretKey example_env) of
                      None \<Rightarrow> [] | Some bs \<Rightarrow> bs) = Inr creds
             \<and> (creds (UsernameCredentialsKey example_env) = None
                \<or> creds (PasswordCredentialsKey example_env) = None))"
    by (simp add: example_defs)
  from invalid_credentials_rejected[OF 1 2 refl 3] show ?thesis
    by (simp add: example_broker_def)
qed

text \<open>
  C6. When reading the credentials secret fails with a not-found error,
  \<open>ReconcileResource\<close> returns a nil error and a result that asks to be run again after
  2 seconds (2000000000 ns), and the Ready condition is False with reason
  \<^verbatim>\<open>CredentialsSecretNotAvailable\<close>. When the read fails with any other error, that error is
  returned, with no requeue and the same condition.
\<close>

theorem secret_fetch_failure:
  assumes "k8s_Get env Secret (secrets w) (calls w) (b_namespace b, b_credentials_name b) = (Inl err, tr)"
  shows "(IsNotFound err \<longrightarrow>
           (\<exists>b' c. ReconcileResource env b w =
                     Returned \<lparr>requeue = False, requeue_after = 2000000000\<rparr> None b' (w\<lparr>calls := tr\<rparr>)
                 \<and> FindStatusCondition (b_conditions b') StatusConditionReady = Some c
                 \<and> cond_status c = ConditionFalse
                 \<and> cond_reason c = ''CredentialsSecretNotAvailable''))
       \<and> (\<not> IsNotFound err \<longrightarrow>
           (\<exists>b' c. ReconcileResource env b w = Returned empty_result (Some err) b' (w\<lparr>calls := tr\<rparr>)
                 \<and> FindStatusCondition (b_conditions b') StatusConditionReady = Some c
                 \<and> cond_status c = ConditionFalse
                 \<and> cond_reason c = ''CredentialsSecretNotAvailable''))"
proof -
  let ?new = "Build env (WithError (Some err) (WithReason ''CredentialsSecretNotAvailable'' (NewReadyConditionBuilder env)))"
  have new: "cond_type ?new = StatusConditionReady" "cond_reason ?new = ''CredentialsSecretNotAvailable''"
    "cond_status ?new = ConditionFalse"
    by (simp_all add: Build_def WithError_def WithReason_def)
  from FindStatusCondition_SetStatusCondition[of env "b_conditions b" ?new] new
  obtain c where c: "FindStatusCondition (SetStatusCondition env (b_conditions b) ?new) StatusConditionReady = Some c"
    "cond_reason c = ''CredentialsSecretNotAvailable''" "cond_status c = ConditionFalse" by auto
  show ?thesis using assms c
    by (auto simp: ReconcileResource_def ReconcileResource_body_def Let_def Second_def)
qed

text \<open>A cluster without the secret.\<close>

theorem secret_fetch_failure_witness:
  "\<exists>b' c. ReconcileResource example_env example_broker secretless_world =
             Returned \<lparr>requeue = False, requeue_after = 2000000000\<rparr> None b'
               (secretless_world\<lparr>calls := [ApiGet Secret (''cf'', ''my-broker-secret'')]\<rparr>)
         \<and> FindStatusCondition (b_conditions b') StatusConditionReady = Some c
         \<and> cond_status c = ConditionFalse
         \<and> cond_reason c = ''CredentialsSecretNotAvailable''"
proof -
  have 1: "k8s_Get example_env Secret (secrets secretless_world) (calls secretless_world)
             (b_namespace example_broker, b_credentials_name example_broker)
           = (Inl (StatusError NotFound ''my-broker-secret not found''),
              [ApiGet Secret (''cf'', ''my-broker-secret'')])"
    by (simp add: example_defs k8s_Get_def)
  from secret_fetch_failure[OF 1] show ?thesis by simp
qed

text \<open>
  C7. After a successful \<open>reconcileCatalogPlan\<close> the plan object stored under the derived
  name has the catalog plan's id as broker-catalog id, its \<^verbatim>\<open>plan_updateable\<close> and
  \<^verbatim>\<open>bindable\<close> flags as features, its name, free flag and description, its schemas
  unchanged, and the marshalled metadata. For the plan of the repository test
  (id \<^verbatim>\<open>broker-plan-guid\<close>, bindable) the stored plan has that id and is bindable.
\<close>

theorem reconcileCatalogPlan_stores_plan:
  assumes "reconcileCatalogPlan env w serviceOffering catalogPlan = (Ok (), w')"
  shows "\<exists>ob raw.
           plans w' (obj_namespace serviceOffering,
                     NamespacedUUID env (label (obj_labels serviceOffering) (RelServiceBrokerLabel env))
                       (plan_id catalogPlan)) = Some ob
         \<and> sp_catalog_id (obj_spec ob) = plan_id catalogPlan
         \<and> sp_plan_updateable (obj_spec ob) = plan_plan_updateable catalogPlan
         \<and> sp_bindable (obj_spec ob) = plan_bindable catalogPlan
         \<and> sp_name (obj_spec ob) = plan_name catalogPlan
         \<and> sp_free (obj_spec ob) = plan_free catalogPlan
         \<and> sp_description (obj_spec ob) = plan_description catalogPlan
         \<and> sp_schemas (obj_spec ob) = plan_schemas catalogPlan
         \<and> json_Marshal env (plan_metadata catalogPlan) = Inr raw
         \<and> sp_catalog_metadata (obj_spec ob) = Some raw"
proof -
  let ?sp = "\<lparr>obj_name = NamespacedUUID env (label (obj_labels serviceOffering) (RelServiceBrokerLabel env))
                            (plan_id catalogPlan),
             obj_namespace = obj_namespace serviceOffering, obj_labels = Map.empty,
             obj_spec = zero_service_plan\<rparr>"
  from assms obtain ob st tr where
    cop: "CreateOrPatch env CFServicePlan (plans w) (calls w) ?sp
            (servicePlan_mutate env serviceOffering catalogPlan) = (Ok ob, st, tr)"
    and w': "w' = w\<lparr>plans := st, calls := tr\<rparr>"
    by (auto simp: reconcileCatalogPlan_def Let_def split: prod.splits res.splits)
  from CreateOrPatch_Ok[OF cop] obtain cur where
    m: "servicePlan_mutate env serviceOffering catalogPlan cur = Ok ob"
    and st: "st = (plans w)(obj_key ?sp \<mapsto> ob)"
    by blast
  from m obtain raw where raw: "json_Marshal env (plan_metadata catalogPlan) = Inr raw"
    and ob: "obj_spec ob = \<lparr>sp_name = plan_name catalogPlan, sp_free = plan_free catalogPlan,
                 sp_description = plan_description catalogPlan, sp_catalog_id = plan_id catalogPlan,
                 sp_catalog_metadata = Some raw,
                 sp_plan_updateable = plan_plan_updateable catalogPlan,
                 sp_bindable = plan_bindable catalogPlan, sp_schemas = plan_schemas catalogPlan\<rparr>"
    by (auto simp: servicePlan_mutate_def Let_def split: sum.splits)
  have "plans w' (obj_key ?sp) = Some ob" using st w' by simp
  then show ?thesis using raw ob by (intro exI[of _ ob] exI[of _ raw]) (simp add: obj_key_def)
qed

text \<open>The plan of the service plan repository test.\<close>

theorem reconcileCatalogPlan_stores_plan_witness:
  "\<exists>ob. plans (snd (reconcileCatalogPlan example_env example_world example_offering example_plan))
           (''cf'', ''my-broker.broker-plan-guid'') = Some ob
       \<and> sp_catalog_id (obj_spec ob) = ''broker-plan-guid''
       \<and> sp_bindable (obj_spec ob) = True"
proof -
  have "fst (reconcileCatalogPlan example_env example_world example_offering example_plan) = Ok ()"
    by (simp add: example_defs model_defs Let_def)
  then have run: "reconcileCatalogPlan example_env example_world example_offering example_plan
      = (Ok (), snd (reconcileCatalogPlan example_env example_world example_offering example_plan))"
    by (metis prod.collapse)
  from reconcileCatalogPlan_stores_plan[OF run] show ?thesis
    by (auto simp: example_env_def example_offering_def example_plan_def label_def)
qed

text \<open>
  C8. A run that reaches Ready (it returns no error and asks for no requeue) leaves the
  broker with its observed generation equal to its generation, its observed credentials
  version equal to the resource version of the secret in the cluster, and the Ready
  condition True.
\<close>

theorem ready_records_observed_state:
  assumes "ReconcileResource env b w = Returned result None b' w'" and "requeue_after result = 0"
  shows "b_observed_generation b' = b_generation b
       \<and> (\<exists>sec. secrets w (b_namespace b, b_credentials_name b) = Some sec
              \<and> b_credentials_observed_version b' = sec_resource_version sec)
       \<and> (\<exists>c. FindStatusCondition (b_conditions b') StatusConditionReady = Some c
              \<and> cond_status c = ConditionTrue)"
proof -
  let ?ky = "(b_namespace b, b_credentials_name b)"
  let ?new = "Build env (WithError None (Ready (NewReadyConditionBuilder env)))"
  have new: "cond_type ?new = StatusConditionReady" "cond_status ?new = ConditionTrue"
    by (simp_all add: Build_def WithError_def)
  from FindStatusCondition_SetStatusCondition[of env "b_conditions b" ?new] new
  obtain c where c: "FindStatusCondition (SetStatusCondition env (b_conditions b) ?new) StatusConditionReady = Some c"
    "cond_status c = ConditionTrue" by auto
  obtain got tr where get: "k8s_Get env Secret (secrets w) (calls w) ?ky = (got, tr)"
    by (cases "k8s_Get env Secret (secrets w) (calls w) ?ky")
  from assms get obtain sec where sec: "got = Inr sec"
    and b': "b' = b\<lparr>b_observed_generation := b_generation b,
                    b_credentials_observed_version := sec_resource_version sec,
                    b_conditions := SetStatusCondition env (b_conditions b) ?new\<rparr>"
    by (auto simp: ReconcileResource_def ReconcileResource_body_def Let_def Second_def empty_result_def
          split: sum.splits option.splits if_splits res.splits prod.splits body_exit.splits)
  from get sec have "secrets w ?ky = Some sec" by (simp add: k8s_Get_Inr)
  then show ?thesis using b' c by simp
qed

text \<open>The example broker: generation 3, secret version 42.\<close>

theorem ready_records_observed_state_witness:
  "\<exists>b'. (\<exists>w'. ReconcileResource example_env example_broker example_world = Returned empty_result None b' w')
       \<and> b_observed_generation b' = 3 \<and> b_credentials_observed_version b' = ''42''
       \<and> (\<exists>c. FindStatusCondition (b_conditions b') StatusConditionReady = Some c
              \<and> cond_status c = ConditionTrue)"
proof -
  have "\<exists>b' w'. ReconcileResource example_env example_broker example_world = Returned empty_result None b' w'"
    by (simp add: example_defs model_defs Let_def)
  then obtain b' w' where
    run: "ReconcileResource example_env example_broker example_world = Returned empty_result None b' w'"
    by blast
  have 0: "requeue_after empty_result = 0" by (simp add: empty_result_def)
  from ready_records_observed_state[OF run 0] run show ?thesis
    by (auto simp: example_defs)
qed

text \<open>
  C9, as stated, fails when the list call fails: \<open>secretToServiceBroker\<close> then returns no
  request, although a broker of the namespace references the secret.
\<close>

theorem secretToServiceBroker_list_failure:
  "fst (secretToServiceBroker unlistable_env example_world (''cf'', ''my-broker-secret'')) = []
   \<and> example_broker \<in> set (brokers example_world)
   \<and> b_namespace example_broker = ''cf''
   \<and> b_credentials_name example_broker = ''my-broker-secret''"
  by (simp add: example_defs secretToServiceBroker_def k8s_List_def)

text \<open>
  C9, amended. When the list call succeeds, the requests are exactly the brokers of the
  secret's namespace whose credentials reference names the secret; when it fails, there
  is no request.
\<close>

theorem secretToServiceBroker_requests:
  "(api_fault env (calls w) (ApiList CFServiceBroker ns n) = None \<longrightarrow>
      set (fst (secretToServiceBroker env w (ns, n)))
        = {(b_namespace sb, b_name sb) | sb.
             sb \<in> set (brokers w) \<and> b_namespace sb = ns \<and> b_credentials_name sb = n})
 \<and> (api_fault env (calls w) (ApiList CFServiceBroker ns n) \<noteq> None \<longrightarrow>
      fst (secretToServiceBroker env w (ns, n)) = [])"
  by (auto simp: secretToServiceBroker_def k8s_List_def IndexServiceBrokerCredentialsSecretName_def)

text \<open>The example secret is referenced by the example broker only.\<close>

theorem secretToServiceBroker_requests_witness:
  "set (fst (secretToServiceBroker example_env example_world (''cf'', ''my-broker-secret'')))
     = {(''cf'', ''my-broker'')}"
proof -
  have 1: "api_fault example_env (calls example_world) (ApiList CFServiceBroker ''cf'' ''my-broker-secret'') = None"
    by (simp add: example_env_def)
  have 2: "{(b_namespace sb, b_name sb) | sb.
             sb \<in> set (brokers example_world) \<and> b_namespace sb = ''cf''
             \<and> b_credentials_name sb = ''my-broker-secret''} = {(''cf'', ''my-broker'')}"
    by (auto simp: example_world_def example_broker_def)
  from secretToServiceBroker_requests[of example_env example_world "''cf''" "''my-broker-secret''"] 1
  show ?thesis unfolding 2 by blast
qed

text \<open>
  C10. For a catalog service whose metadata has an entry \<^verbatim>\<open>documentationUrl\<close> that is not a
  string, \<open>toSpecServiceOffering\<close> panics: it returns neither an offering nor an error,
  and so does the mutate function of the offering upsert.
\<close>

theorem toSpecServiceOffering_panics:
  assumes "svc_metadata catalogService = Some md" and "md ''documentationUrl'' = Some u"
    and "\<forall>str. u \<noteq> JString str"
  shows "toSpecServiceOffering env catalogService = Panic
       \<and> (\<forall>e. toSpecServiceOffering env catalogService \<noteq> Err e)
       \<and> serviceOffering_mutate env b catalogService ob = Panic"
  using assms by (cases u) (simp_all add: toSpecServiceOffering_def serviceOffering_mutate_def)

text \<open>A documentation URL given as a list; the offering upsert panics with it.\<close>

theorem toSpecServiceOffering_panics_witness:
  "toSpecServiceOffering example_env undocumented_service = Panic
   \<and> fst (reconcileCatalogService example_env example_world example_broker undocumented_service) = Panic"
proof -
  have 1: "svc_metadata undocumented_service
             = Some [''documentationUrl'' \<mapsto> JArray [JString ''https://example.org'']]"
    by (simp add: undocumented_service_def plain_service_def)
  have 2: "[''documentationUrl'' \<mapsto> JArray [JString ''https://example.org'']] ''documentationUrl''
             = Some (JArray [JString ''https://example.org''])"
    by simp
  have 3: "\<forall>str. JArray [JString ''https://example.org''] \<noteq> JString str" by simp
  from toSpecServiceOffering_panics[OF 1 2 3, of example_env example_broker]
  have t: "toSpecServiceOffering example_env undocumented_service = Panic"
    by blast
  have "fst (reconcileCatalogService example_env example_world example_broker undocumented_service) = Panic"
    by (simp add: example_defs model_defs Let_def)
  with t show ?thesis by simp
qed

end
